theory Spec2Isabelle
  imports Main "HOL-Library.Word" "HOL-Library.Signed_Division"
begin

section \<open>The C library functions that \<^verbatim>\<open>parse_cmd_args\<close> calls\<close>

text \<open>
  \<^verbatim>\<open>src/extract/main.cc\<close> parses its command line with \<^verbatim>\<open>getopt_long\<close> and
  \<^verbatim>\<open>strtol\<close>. Both are modelled here after their documented behaviour (glibc, the
  "C" locale, \<^verbatim>\<open>POSIXLY_CORRECT\<close> unset). C strings are \<open>string\<close>s; the
  terminating NUL is the end of the list.
\<close>

subsection \<open>\<^verbatim>\<open>strtol(nptr, &endptr, 10)\<close>\<close>

definition isspace :: "char \<Rightarrow> bool" where
  "isspace c = (c \<in> set [CHR '' '', CHR 0x09, CHR 0x0A, CHR 0x0B, CHR 0x0C, CHR 0x0D])"

definition isdigit :: "char \<Rightarrow> bool" where
  "isdigit c = (c \<in> set ''0123456789'')"

definition digit_val :: "char \<Rightarrow> int" where
  "digit_val c = of_char c - of_char CHR ''0''"

definition LONG_MAX :: int where
  "LONG_MAX = 2 ^ 63 - 1"

definition LONG_MIN :: int where
  "LONG_MIN = - (2 ^ 63)"

text \<open>
  The value of a decimal digit string, most significant digit first.
\<close>

definition digits_val :: "string \<Rightarrow> int" where
  "digits_val ds = foldl (\<lambda>acc c. acc * 10 + digit_val c) 0 ds"

text \<open>
  \<^verbatim>\<open>strtol\<close> skips white space, reads an optional sign and then as many decimal digits as
  there are. The result is the pair of the returned \<^verbatim>\<open>long\<close> (as its value, clamped to
  \<^verbatim>\<open>LONG_MIN\<close> .. \<^verbatim>\<open>LONG_MAX\<close> on overflow) and the text \<^verbatim>\<open>endptr\<close> points to. With no
  digit at all nothing is converted: the value is 0 and \<^verbatim>\<open>endptr\<close> is \<^verbatim>\<open>nptr\<close>.
\<close>

definition strtol :: "string \<Rightarrow> int \<times> string" where
  "strtol nptr =
     (let s = dropWhile isspace nptr;
          negative = (take 1 s = ''-'');
          s = (if take 1 s = ''-'' \<or> take 1 s = ''+'' then drop 1 s else s);
          digits = takeWhile isdigit s;
          v = (if negative then - digits_val digits else digits_val digits)
      in if digits = [] then (0, nptr)
         else (max LONG_MIN (min LONG_MAX v), dropWhile isdigit s))"

subsection \<open>\<^verbatim>\<open>getopt_long\<close>\<close>

datatype has_arg_t = no_argument | required_argument | optional_argument

text \<open>
  \<^verbatim>\<open>struct option\<close>. The \<^verbatim>\<open>flag\<close> pointer is \<open>None\<close> when NULL and otherwise names the
  \<^verbatim>\<open>int\<close> variable it points to.
\<close>

record long_option =
  name :: string
  has_arg :: has_arg_t
  flag :: "string option"
  val :: int

text \<open>
  The scanning state that glibc keeps between calls. \<^verbatim>\<open>argv\<close>, as permuted so far, is
  \<open>scanned @ nonopts @ remaining\<close> (while a cluster of short options is being read, its
  element is already counted in \<open>scanned\<close>):
  \<^item> \<open>scanned\<close>: \<^verbatim>\<open>argv[0]\<close> and the elements consumed as options and option arguments;
    \<^verbatim>\<open>optind\<close> is its length once the scan is over;
  \<^item> \<open>nonopts\<close>: the non-option elements skipped so far, which the permutation moves
    behind the options;
  \<^item> \<open>nextchar\<close>: what is left of the cluster of short options being read;
  \<^item> \<open>remaining\<close>: the elements not looked at yet.
\<close>

record getopt_data =
  scanned :: "string list"
  nonopts :: "string list"
  nextchar :: string
  remaining :: "string list"

text \<open>
  What one call hands back: the return value, \<^verbatim>\<open>optarg\<close> (\<open>None\<close> is NULL) and the
  store \<^verbatim>\<open>*flag = val\<close> when the option found has a \<^verbatim>\<open>flag\<close>.
\<close>

record getopt_ret =
  ret :: int
  optarg :: "string option"
  flag_store :: "(string \<times> int) option"

definition getopt_init :: "string list \<Rightarrow> getopt_data" where
  "getopt_init argv = \<lparr>scanned = take 1 argv, nonopts = [], nextchar = [], remaining = drop 1 argv\<rparr>"

definition optind :: "getopt_data \<Rightarrow> nat" where
  "optind d = length (scanned d)"

definition argv_of :: "getopt_data \<Rightarrow> string list" where
  "argv_of d = scanned d @ nonopts d @ remaining d"

definition end_ret :: getopt_ret where
  "end_ret = \<lparr>ret = - 1, optarg = None, flag_store = None\<rparr>"

text \<open>An unknown or ambiguous option, or an argument that must not be there: \<^verbatim>\<open>'?'\<close>.\<close>

definition error_ret :: getopt_ret where
  "error_ret = \<lparr>ret = of_char CHR ''?'', optarg = None, flag_store = None\<rparr>"

text \<open>A required argument is missing: \<^verbatim>\<open>':'\<close> if \<^verbatim>\<open>optstring\<close> starts with a colon, else \<^verbatim>\<open>'?'\<close>.\<close>

definition missing_ret :: "string \<Rightarrow> getopt_ret" where
  "missing_ret optstring =
     \<lparr>ret = (if take 1 optstring = '':'' then of_char CHR '':'' else of_char CHR ''?''),
      optarg = None, flag_store = None\<rparr>"

definition found_ret :: "long_option \<Rightarrow> string option \<Rightarrow> getopt_ret" where
  "found_ret p arg =
     (case flag p of
        Some v \<Rightarrow> \<lparr>ret = 0, optarg = arg, flag_store = Some (v, val p)\<rparr>
      | None \<Rightarrow> \<lparr>ret = val p, optarg = arg, flag_store = None\<rparr>)"

text \<open>
  \<^verbatim>\<open>NONOPTION_P\<close>: an element that does not start with \<^verbatim>\<open>'-'\<close>, or is \<^verbatim>\<open>"-"\<close> alone.
\<close>

definition nonoption :: "string \<Rightarrow> bool" where
  "nonoption a = (case a of c # d # _ \<Rightarrow> c \<noteq> CHR ''-'' | _ \<Rightarrow> True)"

fun is_prefix :: "string \<Rightarrow> string \<Rightarrow> bool" where
  "is_prefix [] ys = True"
| "is_prefix (x # xs) [] = False"
| "is_prefix (x # xs) (y # ys) = (x = y \<and> is_prefix xs ys)"

datatype lookup = Found long_option | Ambiguous | Not_found

text \<open>
  The search of the table of long options: an exact match wins; otherwise the name may
  be an abbreviation, which must fit one entry only (a second entry that fits makes it
  ambiguous unless it has the same \<^verbatim>\<open>has_arg\<close>, \<^verbatim>\<open>flag\<close> and \<^verbatim>\<open>val\<close>).
\<close>

definition find_long :: "long_option list \<Rightarrow> string \<Rightarrow> lookup" where
  "find_long longopts nm =
     (case filter (\<lambda>p. name p = nm) longopts of
        p # _ \<Rightarrow> Found p
      | [] \<Rightarrow>
          (case filter (\<lambda>p. is_prefix nm (name p)) longopts of
             [] \<Rightarrow> Not_found
           | p # ps \<Rightarrow>
               if list_ex (\<lambda>q. has_arg q \<noteq> has_arg p \<or> flag q \<noteq> flag p \<or> val q \<noteq> val p) ps
               then Ambiguous else Found p))"

text \<open>
  An element \<open>arg\<close> that starts with \<^verbatim>\<open>"--"\<close> (and is longer): the name runs up to the
  first \<^verbatim>\<open>'='\<close>. \<open>rest\<close> are the elements after \<open>arg\<close>.
\<close>

definition process_long_option ::
    "string \<Rightarrow> long_option list \<Rightarrow> getopt_data \<Rightarrow> string \<Rightarrow> string list
      \<Rightarrow> getopt_ret \<times> getopt_data" where
  "process_long_option optstring longopts d arg rest =
     (let nm = takeWhile (\<lambda>c. c \<noteq> CHR ''='') (drop 2 arg);
          nameend = dropWhile (\<lambda>c. c \<noteq> CHR ''='') (drop 2 arg);
          d' = d\<lparr>scanned := scanned d @ [arg], remaining := rest\<rparr>
      in case find_long longopts nm of
           Ambiguous \<Rightarrow> (error_ret, d')
         | Not_found \<Rightarrow> (error_ret, d')
         | Found p \<Rightarrow>
             if nameend \<noteq> [] then
               (if has_arg p \<noteq> no_argument then (found_ret p (Some (tl nameend)), d')
                else (error_ret, d'))
             else if has_arg p = required_argument then
               (case rest of
                  a # rest' \<Rightarrow>
                    (found_ret p (Some a), d'\<lparr>scanned := scanned d' @ [a], remaining := rest'\<rparr>)
                | [] \<Rightarrow> (missing_ret optstring, d'))
             else (found_ret p None, d'))"

text \<open>
  The next character \<open>c\<close> of a cluster of short options. \<^verbatim>\<open>strchr(optstring, c)\<close> is
  \<open>temp\<close>; one colon behind \<open>c\<close> there asks for an argument (the rest of the cluster, or
  else the next element), two colons for an optional one (the rest of the cluster).
  (The \<^verbatim>\<open>"W;"\<close> extension is left out: it needs a \<^verbatim>\<open>W\<close> in \<^verbatim>\<open>optstring\<close>.)
\<close>

definition process_short_option :: "string \<Rightarrow> getopt_data \<Rightarrow> getopt_ret \<times> getopt_data" where
  "process_short_option optstring d =
     (case nextchar d of
        [] \<Rightarrow> (end_ret, d)
      | c # cs \<Rightarrow>
          (let temp = dropWhile (\<lambda>x. x \<noteq> c) optstring
           in if temp = [] \<or> c = CHR '':'' \<or> c = CHR '';'' then
                (error_ret, d\<lparr>nextchar := cs\<rparr>)
              else if take 1 (drop 1 temp) = '':'' then
                (if take 1 (drop 2 temp) = '':'' then
                   (\<lparr>ret = of_char c, optarg = (if cs \<noteq> [] then Some cs else None),
                     flag_store = None\<rparr>,
                    d\<lparr>nextchar := []\<rparr>)
                 else if cs \<noteq> [] then
                   (\<lparr>ret = of_char c, optarg = Some cs, flag_store = None\<rparr>, d\<lparr>nextchar := []\<rparr>)
                 else
                   (case remaining d of
                      [] \<Rightarrow> (missing_ret optstring, d\<lparr>nextchar := []\<rparr>)
                    | a # rest' \<Rightarrow>
                        (\<lparr>ret = of_char c, optarg = Some a, flag_store = None\<rparr>,
                         d\<lparr>scanned := scanned d @ [a], nextchar := [], remaining := rest'\<rparr>)))
              else
                (\<lparr>ret = of_char c, optarg = None, flag_store = None\<rparr>, d\<lparr>nextchar := cs\<rparr>)))"

text \<open>
  One call of \<^verbatim>\<open>getopt_long(argc, argv, optstring, longopts, &option_index)\<close>. Inside a
  cluster it goes on with the cluster. Otherwise it skips the non-options (permuting
  them behind the options), stops with \<open>-1\<close> at the end of \<^verbatim>\<open>argv\<close> or at \<^verbatim>\<open>"--"\<close> (all
  that follows \<^verbatim>\<open>"--"\<close> are non-options), and reads the element found as a long option
  when it starts with \<^verbatim>\<open>"--"\<close> and as short options when it starts with one \<^verbatim>\<open>'-'\<close>.
\<close>

definition getopt_long ::
    "string \<Rightarrow> long_option list \<Rightarrow> getopt_data \<Rightarrow> getopt_ret \<times> getopt_data" where
  "getopt_long optstring longopts d =
     (if nextchar d \<noteq> [] then process_short_option optstring d
      else
        (let d1 = d\<lparr>nonopts := nonopts d @ takeWhile nonoption (remaining d),
                    remaining := dropWhile nonoption (remaining d)\<rparr>
         in case remaining d1 of
              [] \<Rightarrow> (end_ret, d1)
            | arg # rest \<Rightarrow>
                if arg = ''--'' then
                  (end_ret,
                   d1\<lparr>scanned := scanned d1 @ [arg], nonopts := nonopts d1 @ rest, remaining := []\<rparr>)
                else if take 2 arg = ''--'' then
                  process_long_option optstring longopts d1 arg rest
                else
                  process_short_option optstring
                    (d1\<lparr>scanned := scanned d1 @ [arg], nextchar := drop 1 arg, remaining := rest\<rparr>)))"

text \<open>A measure of what is left to scan; every call that finds an option lowers it.\<close>

definition unscanned :: "getopt_data \<Rightarrow> nat" where
  "unscanned d = length (nextchar d) + sum_list (map (\<lambda>a. Suc (length a)) (remaining d))"


section \<open>The configuration and the ways \<^verbatim>\<open>parse_cmd_args\<close> ends the process\<close>

text \<open>
  \<^verbatim>\<open>extract_config_t\<close> is declared in \<^verbatim>\<open>extract/filewalk.hpp\<close>, which is not among the
  sources; its fields are those \<^verbatim>\<open>parse_cmd_args\<close> assigns. The three overrides are
  signed integers (line 126 prints them with \<^verbatim>\<open>%d\<close>) of a width the sources do not
  show: it is the parameter \<open>'w\<close>, and assigning the \<^verbatim>\<open>long\<close> of \<^verbatim>\<open>strtol\<close> keeps
  the low \<open>LENGTH('w)\<close> bits.
\<close>

record (overloaded) ('w::len) override_t =
  block_size :: "'w word"
  extent_size :: "'w word"
  mod_count :: "'w word"

record (overloaded) ('w::len) extract_config_t =
  input_file :: string
  log_file :: string
  output_file :: string
  overrides :: "'w override_t"

text \<open>
  Modelled from the spec: \<^verbatim>\<open>extract_config_t::init()\<close> and the constant
  \<^verbatim>\<open>EXTRACT_CONFIG_DEFAULT_OUTPUT_FILE\<close> are not among the sources. By the data model
  of the spec the log file starts unset (messages go to standard error), the output
  file is a fixed default name, here the parameter \<open>default_output_file\<close>, and there
  is no override; the input file starts empty and an override that is absent is 0,
  which is what lines 120 and 124 test.
\<close>

definition init :: "string \<Rightarrow> 'w::len extract_config_t" where
  "init default_output_file =
     \<lparr>input_file = [], log_file = [], output_file = default_output_file,
      overrides = \<lparr>block_size = 0, extent_size = 0, mod_count = 0\<rparr>\<rparr>"

datatype printf_arg = Arg_s string | Arg_d int

text \<open>
  Modelled from the spec: \<^verbatim>\<open>fail\<close> comes from \<^verbatim>\<open>errors.hpp\<close>, which is not among the
  sources. By the spec it reports the message and terminates the process with a
  non-zero status; it does not return.

  The ways the process ends when it does not go on: \<open>Exit out status\<close> is
  \<^verbatim>\<open>exit(status)\<close> after \<open>out\<close> was printed to standard output, \<open>Fail fmt args\<close> is the
  call \<^verbatim>\<open>fail(fmt, args...)\<close>, and \<open>Null_optarg\<close> would be the use of a NULL \<^verbatim>\<open>optarg\<close>.
\<close>

datatype abort = Exit string int | Fail string "printf_arg list" | Null_optarg

definition nl :: string where
  "nl = [CHR 0x0A]"

definition dquote :: string where
  "dquote = [CHR 0x22]"

text \<open>
  \<^verbatim>\<open>usage(name)\<close> with \<open>prog\<close> for \<^verbatim>\<open>name\<close>, lines 15 to 33: the text printed, and \<^verbatim>\<open>exit(-1)\<close>.
\<close>

definition usage_text :: "string \<Rightarrow> string \<Rightarrow> string" where
  "usage_text default_output_file prog =
     ''Usage:'' @ nl @
     ''        '' @ prog @ '' [OPTIONS] -f data_file [-o dumpfile]'' @ nl @
     nl @ ''Options:'' @ nl @
     ''  -h  --help                Print these usage options.'' @ nl @
     ''      --force-block-size    Specifies block size, overriding file headers'' @ nl @
     ''      --force-extent-size   Specifies extent size, overriding file headers'' @ nl @
     ''      --force-mod-count     Specifies number of slices in *this* file,'' @ nl @
     ''                            overriding file headers.'' @ nl @
     ''  -f  --file                Path to file or block device where part or all of'' @ nl @
     ''                            the database exists.'' @ nl @
     ''  -l  --log-file            File to log to.  If not provided, messages will be'' @ nl @
     ''                            printed to stderr.'' @ nl @
     ''  -o  --output-file         File to which to output text memcached protocol'' @ nl @
     ''                            messages.  This file must not already exist.'' @ nl @
     ''                            Defaults to '' @ dquote @ default_output_file @ dquote @ nl"

definition usage :: "string \<Rightarrow> string \<Rightarrow> abort" where
  "usage default_output_file prog = Exit (usage_text default_output_file prog) (- 1)"

section \<open>\<^verbatim>\<open>parse_cmd_args\<close>, lines 40 to 129\<close>

definition force_block_size :: int where
  "force_block_size = 256"

definition force_extent_size :: int where
  "force_extent_size = 257"

definition force_mod_count :: int where
  "force_mod_count = 258"

definition optstring :: string where
  "optstring = ''f:l:o:h''"

definition long_options :: "long_option list" where
  "long_options =
     [\<lparr>name = ''force-block-size'', has_arg = required_argument, flag = None,
        val = force_block_size\<rparr>,
      \<lparr>name = ''force-extent-size'', has_arg = required_argument, flag = None,
        val = force_extent_size\<rparr>,
      \<lparr>name = ''force-mod-count'', has_arg = required_argument, flag = None,
        val = force_mod_count\<rparr>,
      \<lparr>name = ''file'', has_arg = required_argument, flag = None, val = of_char CHR ''f''\<rparr>,
      \<lparr>name = ''log-file'', has_arg = required_argument, flag = None, val = of_char CHR ''l''\<rparr>,
      \<lparr>name = ''output-file'', has_arg = required_argument, flag = None,
        val = of_char CHR ''o''\<rparr>,
      \<lparr>name = ''help'', has_arg = no_argument, flag = Some ''do_help'', val = 1\<rparr>]"

text \<open>
  The \<^verbatim>\<open>switch (c)\<close> of lines 70 to 111, for the value \<open>c\<close> and the \<^verbatim>\<open>optarg\<close>
  of one call of \<^verbatim>\<open>getopt_long\<close>; \<open>prog\<close> is \<^verbatim>\<open>argv[0]\<close>. The result is the
  configuration after the case, or the way the case ends the process.
\<close>

definition switch_c ::
    "string \<Rightarrow> string \<Rightarrow> int \<Rightarrow> string option \<Rightarrow> 'w::len extract_config_t
      \<Rightarrow> abort + 'w extract_config_t" where
  "switch_c default_output_file prog c arg config =
     (if c = 0 then Inr config
      else if c = of_char CHR ''f'' then
        (case arg of None \<Rightarrow> Inl Null_optarg
         | Some a \<Rightarrow> Inr (config\<lparr>input_file := a\<rparr>))
      else if c = of_char CHR ''l'' then
        (case arg of None \<Rightarrow> Inl Null_optarg
         | Some a \<Rightarrow> Inr (config\<lparr>log_file := a\<rparr>))
      else if c = of_char CHR ''o'' then
        (case arg of None \<Rightarrow> Inl Null_optarg
         | Some a \<Rightarrow> Inr (config\<lparr>output_file := a\<rparr>))
      else if c = force_block_size then
        (case arg of None \<Rightarrow> Inl Null_optarg
         | Some a \<Rightarrow>
             (let (v, endptr) = strtol a;
                  config = config\<lparr>overrides := (overrides config)\<lparr>block_size := word_of_int v\<rparr>\<rparr>
              in if endptr \<noteq> [] \<or> sint (block_size (overrides config)) \<le> 0
                 then Inl (Fail ''Block size must be a positive integer.\<newline>'' [])
                 else Inr config))
      else if c = force_extent_size then
        (case arg of None \<Rightarrow> Inl Null_optarg
         | Some a \<Rightarrow>
             (let (v, endptr) = strtol a;
                  config = config\<lparr>overrides := (overrides config)\<lparr>extent_size := word_of_int v\<rparr>\<rparr>
              in if endptr \<noteq> [] \<or> sint (extent_size (overrides config)) \<le> 0
                 then Inl (Fail ''Extent size must be a positive integer.\<newline>'' [])
                 else Inr config))
      else if c = force_mod_count then
        (case arg of None \<Rightarrow> Inl Null_optarg
         | Some a \<Rightarrow>
             (let (v, endptr) = strtol a;
                  config = config\<lparr>overrides := (overrides config)\<lparr>mod_count := word_of_int v\<rparr>\<rparr>
              in if endptr \<noteq> [] \<or> sint (mod_count (overrides config)) \<le> 0
                 then Inl (Fail ''The mod count must be a positive integer.\<newline>'' [])
                 else Inr config))
      else if c = of_char CHR ''h'' then Inl (usage default_output_file prog)
      else Inl (usage default_output_file prog))"

text \<open>
  What line 60 to 64 make of one call: \<^verbatim>\<open>do_help\<close> is 0 unless the call stored into it
  through the \<^verbatim>\<open>flag\<close> of \<^verbatim>\<open>--help\<close>, and then \<open>c\<close> becomes \<^verbatim>\<open>'h'\<close>.
\<close>

definition do_help_of :: "getopt_ret \<Rightarrow> int" where
  "do_help_of r =
     (case flag_store r of
        Some (var, v) \<Rightarrow> if var = ''do_help'' then v else 0
      | None \<Rightarrow> 0)"

definition c_of :: "getopt_ret \<Rightarrow> int" where
  "c_of r = (if do_help_of r \<noteq> 0 then of_char CHR ''h'' else ret r)"

definition argv0 :: "getopt_data \<Rightarrow> string" where
  "argv0 d = (case scanned d of [] \<Rightarrow> [] | a # _ \<Rightarrow> a)"

lemma sum_list_dropWhile_le:
  "sum_list (map f (dropWhile P xs)) \<le> sum_list (map f xs)" for f :: "'a \<Rightarrow> nat"
  by (induction xs) auto

lemma process_short_option_unscanned:
  assumes "process_short_option os d = (r, d')" and "nextchar d \<noteq> []"
  shows "unscanned d' < unscanned d"
  using assms
  by (auto simp: process_short_option_def unscanned_def Let_def
      split: list.splits if_splits)

lemma process_long_option_unscanned:
  assumes "process_long_option os lo d arg rest = (r, d')" and "nextchar d = []"
  shows "unscanned d' \<le> sum_list (map (\<lambda>a. Suc (length a)) rest)"
  using assms
  by (auto simp: process_long_option_def unscanned_def Let_def
      split: lookup.splits list.splits if_splits)

lemma getopt_long_unscanned:
  assumes "getopt_long os lo d = (r, d')" and "ret r \<noteq> - 1"
  shows "unscanned d' < unscanned d"
proof (cases "nextchar d = []")
  case False
  with assms show ?thesis
    by (simp add: getopt_long_def process_short_option_unscanned)
next
  case True
  let ?f = "\<lambda>a :: string. Suc (length a)"
  have le: "sum_list (map ?f (dropWhile nonoption (remaining d))) \<le> sum_list (map ?f (remaining d))"
    by (rule sum_list_dropWhile_le)
  show ?thesis
  proof (cases "dropWhile nonoption (remaining d)")
    case Nil
    with assms True show ?thesis
      by (auto simp: getopt_long_def end_ret_def)
  next
    case (Cons arg rest)
    note dw = Cons
    show ?thesis
    proof (cases "arg = ''--''")
      case True
      with assms \<open>nextchar d = []\<close> dw show ?thesis
        by (auto simp: getopt_long_def end_ret_def)
    next
      case notdd: False
      show ?thesis
      proof (cases "take 2 arg = ''--''")
        case True
        with assms \<open>nextchar d = []\<close> dw notdd
        have "unscanned d' \<le> sum_list (map ?f rest)"
          by (auto simp: getopt_long_def dest!: process_long_option_unscanned)
        with le dw True show ?thesis
          by (simp add: unscanned_def \<open>nextchar d = []\<close>)
      next
        case False
        have "\<not> nonoption arg"
          using dropWhile_eq_Cons_conv [THEN iffD1, OF dw] by simp
        then obtain c cs where arg: "arg = CHR ''-'' # c # cs"
          by (auto simp: nonoption_def split: list.splits)
        let ?d2 = "d\<lparr>nonopts := nonopts d @ takeWhile nonoption (remaining d),
                     remaining := dropWhile nonoption (remaining d)\<rparr>
                    \<lparr>scanned := scanned d @ [arg], nextchar := drop 1 arg, remaining := rest\<rparr>"
        from assms \<open>nextchar d = []\<close> dw notdd False
        have "process_short_option os ?d2 = (r, d')"
          by (simp add: getopt_long_def)
        then have "unscanned d' < unscanned ?d2"
          by (rule process_short_option_unscanned) (simp add: arg)
        also have "unscanned ?d2 \<le> unscanned d"
          using le dw by (simp add: unscanned_def arg \<open>nextchar d = []\<close>)
        finally show ?thesis .
      qed
    qed
  qed
qed

text \<open>
  The loop of lines 44 to 112. It ends with the configuration and the state of
  \<^verbatim>\<open>getopt_long\<close> when the options are over (\<open>c = -1\<close>), or with the way a case ended
  the process.
\<close>

function parse_loop ::
    "string \<Rightarrow> 'w::len extract_config_t \<Rightarrow> getopt_data
      \<Rightarrow> abort + ('w extract_config_t \<times> getopt_data)" where
  "parse_loop default_output_file config d =
     (case getopt_long optstring long_options d of
        (r, d') \<Rightarrow>
          if c_of r = - 1 then Inr (config, d')
          else
            (case switch_c default_output_file (argv0 d') (c_of r) (optarg r) config of
               Inl a \<Rightarrow> Inl a
             | Inr config' \<Rightarrow> parse_loop default_output_file config' d'))"
  by pat_completeness auto

lemma switch_c_help:
  "switch_c default_output_file prog (of_char CHR ''h'') arg config
     = Inl (usage default_output_file prog)"
  by (simp add: switch_c_def force_block_size_def force_extent_size_def force_mod_count_def)

termination parse_loop
proof (relation "measure (\<lambda>(default_output_file, config, d). unscanned d)", goal_cases)
  case 1
  show ?case by simp
next
  case (2 default_output_file config d r d' config')
  have "do_help_of r = 0"
  proof (rule ccontr)
    assume "do_help_of r \<noteq> 0"
    then have "c_of r = of_char CHR ''h''"
      by (simp add: c_of_def)
    with 2 switch_c_help [of default_output_file "argv0 d'" "optarg r" config] show False
      by simp
  qed
  with 2 have r: "ret r \<noteq> - 1"
    by (simp add: c_of_def)
  from 2 have "getopt_long optstring long_options d = (r, d')"
    by simp
  then have "unscanned d' < unscanned d"
    using r by (rule getopt_long_unscanned)
  then show ?case
    by simp
qed

declare parse_loop.simps [simp del]

text \<open>
  \<^verbatim>\<open>parse_cmd_args(argc, argv, config)\<close>: \<open>argv\<close> is the whole vector, \<^verbatim>\<open>argv[0]\<close>
  included, and \<^verbatim>\<open>argc\<close> its length. After the loop come the checks of lines 114 to
  128, on \<^verbatim>\<open>argv\<close> as \<^verbatim>\<open>getopt_long\<close> has permuted it. The result is the configuration
  that the caller finds in \<^verbatim>\<open>*config\<close>, or the way the process ended.
\<close>

definition parse_cmd_args :: "string \<Rightarrow> string list \<Rightarrow> abort + 'w::len extract_config_t" where
  "parse_cmd_args default_output_file argv =
     (case parse_loop default_output_file (init default_output_file) (getopt_init argv) of
        Inl a \<Rightarrow> Inl a
      | Inr (config, d) \<Rightarrow>
          if optind d < length argv then
            Inl (Fail (''Unexpected extra argument: '' @ dquote @ ''%s'' @ dquote)
                   [Arg_s (argv_of d ! optind d)])
          else if input_file config = [] then
            Inl (Fail ''You must explicitly specify a path with -f.'' [])
          else if extent_size (overrides config) \<noteq> 0 \<and> block_size (overrides config) \<noteq> 0
              \<and> sint (extent_size (overrides config)) smod sint (block_size (overrides config)) \<noteq> 0
          then
            Inl (Fail ''The forced extent size (%d) is not a multiple of the forced block size (%d).''
                   [Arg_d (sint (extent_size (overrides config))),
                    Arg_d (sint (block_size (overrides config)))])
          else Inr config)"

section \<open>The task and the state machine that runs it inside the loggers\<close>

text \<open>
  What one call of \<^verbatim>\<open>blocking_runner_t::run()\<close> does, seen from its caller: the events
  of the task, in order, and whether \<^verbatim>\<open>run()\<close> returns or the process ends inside it.
\<close>

datatype 't outcome = Returns "'t list" | Ends_process "'t list"

record 't blocking_runner_t =
  run :: "'t outcome"

text \<open>
  \<^verbatim>\<open>run_in_loggers_fsm_t\<close>, lines 155 to 185: the object owns its runner. Its \<^verbatim>\<open>pool\<close>
  and its \<^verbatim>\<open>controller\<close> are the one thread pool and the one log controller of the
  process, whose states are part of the \<open>world\<close> below. (The configuration that
  \<^verbatim>\<open>make_fake_config\<close> hands to the log controller plays no part in what follows.)
\<close>

record 't run_in_loggers_fsm_t =
  runner :: "'t blocking_runner_t"

text \<open>
  The events of a run, in the order of the lines that cause them:
  \<^item> \<open>New_runner\<close> and \<open>New_fsm\<close>: the two \<^verbatim>\<open>gnew\<close> of lines 218 and 219;
  \<^item> \<open>Fsm_start\<close>, \<open>On_logger_ready\<close>, \<open>On_logger_shutdown\<close>: a member function of the
    state machine is entered (lines 162, 168, 176);
  \<^item> \<open>Controller_start\<close> and \<open>Controller_shutdown\<close>: the calls \<^verbatim>\<open>controller.start(this)\<close>
    and \<^verbatim>\<open>controller.shutdown(this)\<close> of lines 163 and 171;
  \<^item> \<open>Run\<close>, \<open>Task t\<close>, \<open>Run_returned\<close>: \<^verbatim>\<open>runner->run()\<close> of line 169 is called, the
    task does \<open>t\<close>, the call returns;
  \<^item> \<open>Pool_shutdown\<close>: \<^verbatim>\<open>pool->shutdown()\<close> of line 177;
  \<^item> \<open>Delete_runner\<close> and \<open>Delete_fsm\<close>: \<^verbatim>\<open>gdelete(runner)\<close> of line 159 and
    \<^verbatim>\<open>gdelete(this)\<close> of line 178;
  \<^item> \<open>Check_failed msg\<close>: the \<^verbatim>\<open>check\<close> of line 208 ends the process;
  \<^item> \<open>Return_main status\<close>: \<^verbatim>\<open>main\<close> returns, line 232.
\<close>

datatype 't event =
    New_runner
  | New_fsm
  | Fsm_start
  | Controller_start
  | On_logger_ready
  | Run
  | Task 't
  | Run_returned
  | Controller_shutdown
  | On_logger_shutdown
  | Pool_shutdown
  | Delete_runner
  | Delete_fsm
  | Check_failed string
  | Return_main int

text \<open>
  The state of the process: the events so far, whether the two objects made with
  \<^verbatim>\<open>gnew\<close> are allocated, the callbacks that the log controller still owes, whether the
  pool was asked to shut down, whether the process has ended, and whether a deleted
  object was used or deleted again.
\<close>

record 't world =
  trace :: "'t event list"
  live_runner :: bool
  live_fsm :: bool
  ready_cb :: "'t run_in_loggers_fsm_t option"
  shutdown_cb :: "'t run_in_loggers_fsm_t option"
  pool_stopping :: bool
  ended :: bool
  fault :: bool

definition boot :: "'t world" where
  "boot = \<lparr>trace = [], live_runner = False, live_fsm = False, ready_cb = None,
           shutdown_cb = None, pool_stopping = False, ended = False, fault = False\<rparr>"

definition emit :: "'t event \<Rightarrow> 't world \<Rightarrow> 't world" where
  "emit e w = w\<lparr>trace := trace w @ [e]\<rparr>"

text \<open>A member function is entered: a fault if the object has been deleted.\<close>

definition enter_fsm :: "'t event \<Rightarrow> 't world \<Rightarrow> 't world" where
  "enter_fsm e w = emit e (w\<lparr>fault := fault w \<or> \<not> live_fsm w\<rparr>)"

text \<open>
  Modelled from the spec: \<^verbatim>\<open>log_controller_t\<close> comes from \<^verbatim>\<open>logger.hpp\<close>, which is not
  among the sources. By the spec \<^verbatim>\<open>start(cb)\<close> and \<^verbatim>\<open>shutdown(cb)\<close> either return true
  (the step is complete, the caller goes on itself) or return false and call the
  callback once, later. Which of the two happens is the environment's choice.
\<close>

record log_env =
  start_inline :: bool
  shutdown_inline :: bool

definition controller_start ::
    "'t run_in_loggers_fsm_t \<Rightarrow> log_env \<Rightarrow> 't world \<Rightarrow> bool \<times> 't world" where
  "controller_start cb env w =
     (if start_inline env then (True, emit Controller_start w)
      else (False, (emit Controller_start w)\<lparr>ready_cb := Some cb\<rparr>))"

definition controller_shutdown ::
    "'t run_in_loggers_fsm_t \<Rightarrow> log_env \<Rightarrow> 't world \<Rightarrow> bool \<times> 't world" where
  "controller_shutdown cb env w =
     (if shutdown_inline env then (True, emit Controller_shutdown w)
      else (False, (emit Controller_shutdown w)\<lparr>shutdown_cb := Some cb\<rparr>))"

text \<open>
  Modelled from the spec: \<^verbatim>\<open>thread_pool_t\<close> is not among the sources. \<^verbatim>\<open>shutdown()\<close>
  asks the pool to stop.
\<close>

definition pool_shutdown :: "'t world \<Rightarrow> 't world" where
  "pool_shutdown w = (emit Pool_shutdown w)\<lparr>pool_stopping := True\<rparr>"

text \<open>
  Modelled from the spec: \<^verbatim>\<open>gnew\<close> and \<^verbatim>\<open>gdelete\<close> come from \<^verbatim>\<open>alloc/gnew.hpp\<close>, which is
  not among the sources. \<^verbatim>\<open>gdelete\<close> releases the object: it is destroyed and its memory
  freed. Deleting what is not allocated is a fault. The destructor of the state
  machine, lines 158 to 160, deletes the runner, so that \<^verbatim>\<open>gdelete(this)\<close> releases the
  runner first and then the state machine.
\<close>

definition gdelete_runner :: "'t world \<Rightarrow> 't world" where
  "gdelete_runner w =
     (emit Delete_runner w)\<lparr>live_runner := False, fault := fault w \<or> \<not> live_runner w\<rparr>"

definition gdelete_fsm :: "'t world \<Rightarrow> 't world" where
  "gdelete_fsm w =
     (let w = gdelete_runner w
      in (emit Delete_fsm w)\<lparr>live_fsm := False, fault := fault w \<or> \<not> live_fsm w\<rparr>)"

text \<open>\<^verbatim>\<open>on_logger_shutdown()\<close>, lines 176 to 179.\<close>

definition on_logger_shutdown :: "'t run_in_loggers_fsm_t \<Rightarrow> 't world \<Rightarrow> 't world" where
  "on_logger_shutdown this w =
     (let w = enter_fsm On_logger_shutdown w;
          w = pool_shutdown w
      in gdelete_fsm w)"

text \<open>
  \<^verbatim>\<open>runner->run()\<close>, line 169: the events of the task are appended; using a deleted
  runner is a fault.
\<close>

definition runner_run :: "'t run_in_loggers_fsm_t \<Rightarrow> 't world \<Rightarrow> bool \<times> 't world" where
  "runner_run this w =
     (let w = emit Run (w\<lparr>fault := fault w \<or> \<not> live_runner w\<rparr>)
      in case run (runner this) of
           Returns ts \<Rightarrow> (True, emit Run_returned (w\<lparr>trace := trace w @ map Task ts\<rparr>))
         | Ends_process ts \<Rightarrow> (False, w\<lparr>trace := trace w @ map Task ts, ended := True\<rparr>))"

text \<open>\<^verbatim>\<open>on_logger_ready()\<close>, lines 168 to 174.\<close>

definition on_logger_ready ::
    "'t run_in_loggers_fsm_t \<Rightarrow> log_env \<Rightarrow> 't world \<Rightarrow> 't world" where
  "on_logger_ready this env w =
     (let w = enter_fsm On_logger_ready w;
          (returned, w) = runner_run this w
      in if \<not> returned then w
         else
           (let (complete, w) = controller_shutdown this env w
            in if complete then on_logger_shutdown this w else w))"

text \<open>\<^verbatim>\<open>start()\<close>, lines 162 to 166.\<close>

definition start :: "'t run_in_loggers_fsm_t \<Rightarrow> log_env \<Rightarrow> 't world \<Rightarrow> 't world" where
  "start this env w =
     (let w = enter_fsm Fsm_start w;
          (complete, w) = controller_start this env w
      in if complete then on_logger_ready this env w else w)"

text \<open>A measure of the callbacks still owed.\<close>

definition owed :: "'t world \<Rightarrow> nat" where
  "owed w = (if ready_cb w = None then 0 else 2) + (if shutdown_cb w = None then 0 else 1)"

lemma on_logger_shutdown_cbs:
  "ready_cb (on_logger_shutdown this w) = ready_cb w"
  "shutdown_cb (on_logger_shutdown this w) = shutdown_cb w"
  by (simp_all add: on_logger_shutdown_def gdelete_fsm_def gdelete_runner_def pool_shutdown_def
      enter_fsm_def emit_def Let_def)

lemma on_logger_ready_cbs:
  "ready_cb (on_logger_ready this env w) = ready_cb w"
  by (simp add: on_logger_ready_def runner_run_def controller_shutdown_def enter_fsm_def
      emit_def Let_def on_logger_shutdown_cbs split: outcome.splits)

text \<open>
  Modelled from the spec: the worker of the pool, between the first message and the
  end. As long as the process lives it makes the calls that the log controller owes,
  each callback once, and it is idle when none is owed.
\<close>

function worker :: "log_env \<Rightarrow> 't world \<Rightarrow> 't world" where
  "worker env w =
     (if ended w then w
      else
        (case ready_cb w of
           Some cb \<Rightarrow> worker env (on_logger_ready cb env (w\<lparr>ready_cb := None\<rparr>))
         | None \<Rightarrow>
             (case shutdown_cb w of
                Some cb \<Rightarrow> worker env (on_logger_shutdown cb (w\<lparr>shutdown_cb := None\<rparr>))
              | None \<Rightarrow> w)))"
  by pat_completeness auto
termination
  by (relation "measure (\<lambda>(env, w). owed w)")
    (auto simp: owed_def on_logger_ready_cbs on_logger_shutdown_cbs)

declare worker.simps [simp del]

section \<open>The task of this program and \<^verbatim>\<open>main\<close>\<close>

text \<open>
  The events of the task: the process is ended by \<^verbatim>\<open>usage\<close> or \<^verbatim>\<open>fail\<close>, or
  \<^verbatim>\<open>dumpfile(cfg)\<close> is called (\<open>'c\<close> is the type of \<open>cfg\<close>).
\<close>

datatype 'c task_event = Aborted abort | Dumpfile 'c

text \<open>
  Modelled from the spec: \<^verbatim>\<open>dumpfile\<close>, the extraction engine, is not among the
  sources; by the spec it is an opaque blocking call that returns nothing, or ends the
  process on an error it cannot recover from. \<open>dumpfile_returns cfg\<close> tells which.

  The record holds what the program takes from outside, apart from \<^verbatim>\<open>argv\<close>:
  \<open>default_output\<close> is the value of \<^verbatim>\<open>EXTRACT_CONFIG_DEFAULT_OUTPUT_FILE\<close>,
  \<open>sigaction_res\<close> what \<^verbatim>\<open>sigaction\<close> returns in \<^verbatim>\<open>main\<close>, and \<open>loggers\<close> the
  behaviour of the log controller.
\<close>

record (overloaded) ('w::len) environment =
  default_output :: string
  dumpfile_returns :: "'w extract_config_t \<Rightarrow> bool"
  sigaction_res :: int
  loggers :: log_env

text \<open>\<^verbatim>\<open>extractmain(argc, argv)\<close>, lines 133 to 137, as the outcome of the call.\<close>

definition extractmain ::
    "'w::len environment \<Rightarrow> string list \<Rightarrow> 'w extract_config_t task_event outcome" where
  "extractmain env argv =
     (case parse_cmd_args (default_output env) argv of
        Inl a \<Rightarrow> Ends_process [Aborted a]
      | Inr cfg \<Rightarrow>
          if dumpfile_returns env cfg then Returns [Dumpfile cfg]
          else Ends_process [Dumpfile cfg])"

text \<open>\<^verbatim>\<open>struct runner\<close>, lines 189 to 196: \<^verbatim>\<open>run()\<close> calls \<^verbatim>\<open>extractmain(argc, argv)\<close>.\<close>

definition extract_runner ::
    "'w::len environment \<Rightarrow> string list
      \<Rightarrow> 'w extract_config_t task_event blocking_runner_t" where
  "extract_runner env argv = \<lparr>run = extractmain env argv\<rparr>"

text \<open>\<^verbatim>\<open>server_starter_t::on_cpu_switch()\<close>, lines 217 to 221.\<close>

definition on_cpu_switch ::
    "'w::len environment \<Rightarrow> string list \<Rightarrow> 'w extract_config_t task_event world
      \<Rightarrow> 'w extract_config_t task_event world" where
  "on_cpu_switch env argv w =
     (let w = (emit New_runner w)\<lparr>live_runner := True\<rparr>;
          r = extract_runner env argv;
          w = (emit New_fsm w)\<lparr>live_fsm := True\<rparr>;
          fsm = \<lparr>runner = r\<rparr>
      in start fsm (loggers env) w)"

text \<open>
  Modelled from the spec: \<^verbatim>\<open>thread_pool_t::run(&starter)\<close>. The worker takes the
  first message and then serves the callbacks; the call returns to \<^verbatim>\<open>main\<close> once the
  pool was asked to shut down, and blocks for ever if it never is.
\<close>

definition thread_pool_run ::
    "('t world \<Rightarrow> 't world) \<Rightarrow> log_env \<Rightarrow> 't world \<Rightarrow> 't world" where
  "thread_pool_run starter lenv w = worker lenv (starter w)"

text \<open>
  \<^verbatim>\<open>main\<close>, lines 200 to 233. Modelled from the spec: \<^verbatim>\<open>check(msg, cond)\<close> comes from
  \<^verbatim>\<open>errors.hpp\<close>, which is not among the sources; a failed check is a fatal error, so
  the process ends if \<open>cond\<close> holds. The handler that \<^verbatim>\<open>main\<close> installs for \<^verbatim>\<open>SIGSEGV\<close>,
  \<^verbatim>\<open>filecheck_crash_handler\<close>, runs only when that signal arrives; signals are outside
  this model.
\<close>

definition main ::
    "'w::len environment \<Rightarrow> string list \<Rightarrow> 'w extract_config_t task_event world" where
  "main env argv =
     (if sigaction_res env < 0 then
        (emit (Check_failed ''Could not install SEGV handler'') boot)\<lparr>ended := True\<rparr>
      else
        (let w = thread_pool_run (on_cpu_switch env argv) (loggers env) boot
         in if ended w \<or> \<not> pool_stopping w then w
            else (emit (Return_main 0) w)\<lparr>ended := True\<rparr>))"

section \<open>Notions that the claims use\<close>

text \<open>
  \<open>precedes a b tr\<close>: in the trace \<open>tr\<close> no \<open>b\<close> occurs unless an \<open>a\<close> has occurred
  before it.
\<close>

fun precedes :: "'a \<Rightarrow> 'a \<Rightarrow> 'a list \<Rightarrow> bool" where
  "precedes a b [] = True"
| "precedes a b (x # xs) = (if x = b then False else if x = a then True else precedes a b xs)"

text \<open>
  A positive integer as the spec means it for an override, in the syntax that
  \<^verbatim>\<open>strtol\<close> reads: white space, an optional plus sign, and then decimal digits only,
  at least one, with a value above zero.
\<close>

definition positive_integer :: "string \<Rightarrow> bool" where
  "positive_integer s =
     (let t = dropWhile isspace s;
          u = (if take 1 t = ''+'' then drop 1 t else t)
      in u \<noteq> [] \<and> list_all isdigit u \<and> 0 < digits_val u)"

text \<open>
  The three override options, each as the value of \<open>c\<close> that selects its case of the
  switch, with the message that names its field; and the assignment of lines 84, 91 and
  98 to the field of the option \<open>c\<close>.
\<close>

definition override_options :: "(int \<times> string) list" where
  "override_options =
     [(force_block_size, ''Block size must be a positive integer.\<newline>''),
      (force_extent_size, ''Extent size must be a positive integer.\<newline>''),
      (force_mod_count, ''The mod count must be a positive integer.\<newline>'')]"

definition set_override :: "int \<Rightarrow> 'w::len word \<Rightarrow> 'w extract_config_t \<Rightarrow> 'w extract_config_t" where
  "set_override c v config =
     (if c = force_block_size then config\<lparr>overrides := (overrides config)\<lparr>block_size := v\<rparr>\<rparr>
      else if c = force_extent_size then config\<lparr>overrides := (overrides config)\<lparr>extent_size := v\<rparr>\<rparr>
      else if c = force_mod_count then config\<lparr>overrides := (overrides config)\<lparr>mod_count := v\<rparr>\<rparr>
      else config)"

text \<open>
  \<open>decimal_of n s\<close>: the text \<open>s\<close> is a numeral of the natural number \<open>n\<close> in the
  syntax that \<^verbatim>\<open>strtol\<close> reads: white space, an optional plus sign, and then decimal
  digits only, at least one, with the value \<open>n\<close>.
\<close>

definition decimal_of :: "nat \<Rightarrow> string \<Rightarrow> bool" where
  "decimal_of n s =
     (let t = dropWhile isspace s;
          u = (if take 1 t = ''+'' then drop 1 t else t)
      in u \<noteq> [] \<and> list_all isdigit u \<and> digits_val u = int n)"

text \<open>The decimal numeral of a natural number, as a user would type it.\<close>

fun dec :: "nat \<Rightarrow> string" where
  "dec n = (if n < 10 then [''0123456789'' ! n] else dec (n div 10) @ [''0123456789'' ! (n mod 10)])"

declare dec.simps [simp del]

lemma getopt_long_flag_store:
  assumes "getopt_long os lo d = (r, d')" and "flag_store r \<noteq> None"
  shows "ret r = 0"
  using assms
  by (auto simp: getopt_long_def process_long_option_def process_short_option_def
      found_ret_def error_ret_def end_ret_def missing_ret_def Let_def
      split: if_splits list.splits lookup.splits option.splits)

lemma c_of_unscanned:
  assumes "getopt_long os lo d = (r, d')" and "c_of r \<noteq> - 1"
  shows "unscanned d' < unscanned d"
proof -
  have "ret r \<noteq> - 1"
  proof (cases "flag_store r")
    case None
    with assms(2) show ?thesis by (simp add: c_of_def do_help_of_def)
  next
    case (Some a)
    with assms(1) have "ret r = 0" by (simp add: getopt_long_flag_store)
    then show ?thesis by simp
  qed
  with assms(1) show ?thesis by (rule getopt_long_unscanned)
qed

text \<open>
  The options that the calls of line 60 find in turn, each as the pair of \<open>c\<close> (after
  line 62 to 64) and \<^verbatim>\<open>optarg\<close>, up to the end of the options. These are the
  occurrences of the flags in the argument list, in the order of the scan.
\<close>

function getopt_all :: "getopt_data \<Rightarrow> (int \<times> string option) list" where
  "getopt_all d =
     (case getopt_long optstring long_options d of
        (r, d') \<Rightarrow> if c_of r = - 1 then [] else (c_of r, optarg r) # getopt_all d')"
  by pat_completeness auto
termination
proof (relation "measure unscanned", goal_cases)
  case 1
  show ?case by simp
next
  case (2 d r d')
  then have "getopt_long optstring long_options d = (r, d')" and "c_of r \<noteq> - 1"
    by simp_all
  then have "unscanned d' < unscanned d"
    by (rule c_of_unscanned)
  then show ?case by simp
qed

declare getopt_all.simps [simp del]


text \<open>
  The state of \<^verbatim>\<open>getopt_long\<close> when the scan is over, from which line 114 reads
  \<^verbatim>\<open>optind\<close>.
\<close>

function getopt_end :: "getopt_data \<Rightarrow> getopt_data" where
  "getopt_end d =
     (case getopt_long optstring long_options d of
        (r, d') \<Rightarrow> if c_of r = - 1 then d' else getopt_end d')"
  by pat_completeness auto
termination
proof (relation "measure unscanned", goal_cases)
  case 1
  show ?case by simp
next
  case (2 d r d')
  then have "getopt_long optstring long_options d = (r, d')" and "c_of r \<noteq> - 1"
    by simp_all
  then have "unscanned d' < unscanned d"
    by (rule c_of_unscanned)
  then show ?case by simp
qed

declare getopt_end.simps [simp del]

text \<open>
  The switch of lines 70 to 111 applied to the options of a scan in turn, as the loop
  does: the configuration after the last of them, or the way the first case that does
  not accept its option ends the process.
\<close>

fun switch_all ::
    "string \<Rightarrow> string \<Rightarrow> (int \<times> string option) list \<Rightarrow> 'w::len extract_config_t
      \<Rightarrow> abort + 'w extract_config_t" where
  "switch_all default_output_file prog [] config = Inr config"
| "switch_all default_output_file prog ((c, arg) # os) config =
     (case switch_c default_output_file prog c arg config of
        Inl a \<Rightarrow> Inl a
      | Inr config' \<Rightarrow> switch_all default_output_file prog os config')"

text \<open>
  Two environments for the examples: the overrides are 32 bit wide in the first and 64
  bit wide in the second; \<^verbatim>\<open>dumpfile\<close> returns, \<^verbatim>\<open>sigaction\<close> succeeds, and the log
  controller defers both callbacks.
\<close>

definition E32 :: "32 environment" where
  "E32 = \<lparr>default_output = ''out'', dumpfile_returns = (\<lambda>cfg. True), sigaction_res = 0,
      loggers = \<lparr>start_inline = False, shutdown_inline = False\<rparr>\<rparr>"

definition E64 :: "64 environment" where
  "E64 = \<lparr>default_output = ''out'', dumpfile_returns = (\<lambda>cfg. True), sigaction_res = 0,
      loggers = \<lparr>start_inline = False, shutdown_inline = False\<rparr>\<rparr>"

section \<open>Lemmas about the state machine\<close>

lemma worker_ended: "ended w \<Longrightarrow> worker env w = w"
  by (simp add: worker.simps)

lemma worker_idle: "ready_cb w = None \<Longrightarrow> shutdown_cb w = None \<Longrightarrow> worker env w = w"
  by (simp add: worker.simps)

lemma worker_ready:
  "\<not> ended w \<Longrightarrow> ready_cb w = Some cb \<Longrightarrow>
     worker env w = worker env (on_logger_ready cb env (w\<lparr>ready_cb := None\<rparr>))"
  by (subst worker.simps) simp

lemma worker_shutdown:
  "\<not> ended w \<Longrightarrow> ready_cb w = None \<Longrightarrow> shutdown_cb w = Some cb \<Longrightarrow>
     worker env w = worker env (on_logger_shutdown cb (w\<lparr>shutdown_cb := None\<rparr>))"
  by (subst worker.simps) simp

lemma on_logger_shutdown_eq:
  "on_logger_shutdown this w =
     w\<lparr>trace := trace w @ [On_logger_shutdown, Pool_shutdown, Delete_runner, Delete_fsm],
       live_runner := False, live_fsm := False, pool_stopping := True,
       fault := fault w \<or> \<not> live_fsm w \<or> \<not> live_runner w\<rparr>"
  by (cases w) (auto simp add: on_logger_shutdown_def gdelete_fsm_def gdelete_runner_def pool_shutdown_def
      enter_fsm_def emit_def Let_def)

lemma on_logger_ready_ends:
  "run (runner this) = Ends_process ts \<Longrightarrow>
   on_logger_ready this env w =
     w\<lparr>trace := trace w @ [On_logger_ready, Run] @ map Task ts, ended := True,
       fault := fault w \<or> \<not> live_fsm w \<or> \<not> live_runner w\<rparr>"
  by (cases w) (auto simp add: on_logger_ready_def runner_run_def enter_fsm_def emit_def Let_def)

lemma on_logger_ready_returns_inline:
  "run (runner this) = Returns ts \<Longrightarrow> shutdown_inline env \<Longrightarrow>
   on_logger_ready this env w =
     w\<lparr>trace := trace w @ [On_logger_ready, Run] @ map Task ts @
         [Run_returned, Controller_shutdown, On_logger_shutdown, Pool_shutdown,
          Delete_runner, Delete_fsm],
       live_runner := False, live_fsm := False, pool_stopping := True,
       fault := fault w \<or> \<not> live_fsm w \<or> \<not> live_runner w\<rparr>"
  by (cases w) (auto simp add: on_logger_ready_def runner_run_def enter_fsm_def emit_def Let_def
      controller_shutdown_def on_logger_shutdown_eq)

lemma on_logger_ready_returns_deferred:
  "run (runner this) = Returns ts \<Longrightarrow> \<not> shutdown_inline env \<Longrightarrow>
   on_logger_ready this env w =
     w\<lparr>trace := trace w @ [On_logger_ready, Run] @ map Task ts @
         [Run_returned, Controller_shutdown],
       shutdown_cb := Some this,
       fault := fault w \<or> \<not> live_fsm w \<or> \<not> live_runner w\<rparr>"
  by (cases w) (auto simp add: on_logger_ready_def runner_run_def enter_fsm_def emit_def Let_def
      controller_shutdown_def)


lemma start_inline_eq:
  "start_inline env \<Longrightarrow>
   start this env w =
     on_logger_ready this env
       (w\<lparr>trace := trace w @ [Fsm_start, Controller_start], fault := fault w \<or> \<not> live_fsm w\<rparr>)"
  by (cases w) (auto simp add: start_def controller_start_def enter_fsm_def emit_def Let_def)

lemma start_deferred_eq:
  "\<not> start_inline env \<Longrightarrow>
   start this env w =
     w\<lparr>trace := trace w @ [Fsm_start, Controller_start], fault := fault w \<or> \<not> live_fsm w,
       ready_cb := Some this\<rparr>"
  by (cases w) (auto simp add: start_def controller_start_def enter_fsm_def emit_def Let_def)

lemma lifecycle_returns:
  assumes "run (runner this) = Returns ts"
    and "ready_cb w = None" "shutdown_cb w = None" "\<not> ended w"
  shows "worker env (start this env w) =
     w\<lparr>trace := trace w @ [Fsm_start, Controller_start, On_logger_ready, Run] @ map Task ts @
         [Run_returned, Controller_shutdown, On_logger_shutdown, Pool_shutdown,
          Delete_runner, Delete_fsm],
       live_runner := False, live_fsm := False, pool_stopping := True,
       fault := fault w \<or> \<not> live_fsm w \<or> \<not> live_runner w\<rparr>"
proof (cases "start_inline env"; cases "shutdown_inline env")
  assume "start_inline env" "shutdown_inline env"
  with assms show ?thesis
    by (cases w) (auto simp: start_inline_eq on_logger_ready_returns_inline worker_idle)
next
  assume "start_inline env" "\<not> shutdown_inline env"
  with assms show ?thesis
    by (cases w)
      (auto simp: start_inline_eq on_logger_ready_returns_deferred worker_shutdown
        on_logger_shutdown_eq worker_idle)
next
  assume "\<not> start_inline env" "shutdown_inline env"
  with assms show ?thesis
    by (cases w)
      (auto simp: start_deferred_eq worker_ready on_logger_ready_returns_inline worker_idle)
next
  assume "\<not> start_inline env" "\<not> shutdown_inline env"
  with assms show ?thesis
    by (cases w)
      (auto simp: start_deferred_eq worker_ready on_logger_ready_returns_deferred
        worker_shutdown on_logger_shutdown_eq worker_idle)
qed

lemma lifecycle_ends:
  assumes "run (runner this) = Ends_process ts"
    and "ready_cb w = None" "shutdown_cb w = None" "\<not> ended w"
  shows "worker env (start this env w) =
     w\<lparr>trace := trace w @ [Fsm_start, Controller_start, On_logger_ready, Run] @ map Task ts,
       ended := True, fault := fault w \<or> \<not> live_fsm w \<or> \<not> live_runner w\<rparr>"
proof (cases "start_inline env")
  case True
  with assms show ?thesis
    by (cases w) (auto simp: start_inline_eq on_logger_ready_ends worker_ended)
next
  case False
  with assms show ?thesis
    by (cases w) (auto simp: start_deferred_eq worker_ready on_logger_ready_ends worker_ended)
qed

lemma count_list_map_Task: "e \<notin> range Task \<Longrightarrow> count_list (map Task ts) e = 0"
  by (induction ts) auto

lemma on_cpu_switch_eq:
  "on_cpu_switch env argv w =
     start \<lparr>runner = extract_runner env argv\<rparr> (loggers env)
       (w\<lparr>trace := trace w @ [New_runner, New_fsm], live_runner := True, live_fsm := True\<rparr>)"
  by (cases w) (simp add: on_cpu_switch_def emit_def Let_def)

lemma extractmain_Inl:
  fixes env :: "'w::len environment"
  shows "(parse_cmd_args (default_output env) argv :: abort + 'w extract_config_t) = Inl a \<Longrightarrow>
     extractmain env argv = Ends_process [Aborted a]"
  by (simp add: extractmain_def)

lemma extractmain_Inr:
  "parse_cmd_args (default_output env) argv = Inr cfg \<Longrightarrow>
     extractmain env argv =
       (if dumpfile_returns env cfg then Returns [Dumpfile cfg] else Ends_process [Dumpfile cfg])"
  by (simp add: extractmain_def)

lemma main_returns:
  assumes "\<not> sigaction_res env < 0" and "extractmain env argv = Returns ts"
  shows "main env argv =
     boot\<lparr>trace := [New_runner, New_fsm, Fsm_start, Controller_start, On_logger_ready, Run] @
         map Task ts @ [Run_returned, Controller_shutdown, On_logger_shutdown, Pool_shutdown,
         Delete_runner, Delete_fsm, Return_main 0],
       pool_stopping := True, ended := True\<rparr>"
  using assms
  by (simp add: main_def thread_pool_run_def on_cpu_switch_eq lifecycle_returns
      extract_runner_def boot_def emit_def)

lemma main_ends:
  assumes "\<not> sigaction_res env < 0" and "extractmain env argv = Ends_process ts"
  shows "main env argv =
     boot\<lparr>trace := [New_runner, New_fsm, Fsm_start, Controller_start, On_logger_ready, Run] @
         map Task ts,
       live_runner := True, live_fsm := True, ended := True\<rparr>"
  using assms
  by (simp add: main_def thread_pool_run_def on_cpu_switch_eq lifecycle_ends
      extract_runner_def boot_def emit_def)

lemma main_check_failed:
  assumes "sigaction_res env < 0"
  shows "main env argv =
     boot\<lparr>trace := [Check_failed ''Could not install SEGV handler''], ended := True\<rparr>"
  using assms by (simp add: main_def boot_def emit_def)


section \<open>Lemmas about the scan of the options\<close>

lemma parse_loop_end:
  "getopt_long optstring long_options d = (r, d') \<Longrightarrow> c_of r = - 1 \<Longrightarrow>
     parse_loop dflt config d = Inr (config, d')"
  by (subst parse_loop.simps) simp

lemma parse_loop_abort:
  "getopt_long optstring long_options d = (r, d') \<Longrightarrow> c_of r \<noteq> - 1 \<Longrightarrow>
   switch_c dflt (argv0 d') (c_of r) (optarg r) config = Inl a \<Longrightarrow>
     parse_loop dflt config d = Inl a"
  by (subst parse_loop.simps) simp

lemma parse_loop_step:
  "getopt_long optstring long_options d = (r, d') \<Longrightarrow> c_of r \<noteq> - 1 \<Longrightarrow>
   switch_c dflt (argv0 d') (c_of r) (optarg r) config = Inr config' \<Longrightarrow>
     parse_loop dflt config d = parse_loop dflt config' d'"
  by (subst parse_loop.simps) simp

lemma takeWhile_nonoption:
  "\<forall>a\<in>set pre. nonoption a \<Longrightarrow> \<not> nonoption arg \<Longrightarrow>
     takeWhile nonoption (pre @ arg # rest) = pre"
  by (simp add: takeWhile_append2)

lemma dropWhile_nonoption:
  "\<forall>a\<in>set pre. nonoption a \<Longrightarrow> \<not> nonoption arg \<Longrightarrow>
     dropWhile nonoption (pre @ arg # rest) = arg # rest"
  by (simp add: dropWhile_append2)

lemma getopt_long_h:
  assumes "\<forall>a\<in>set pre. nonoption a"
  shows "getopt_long optstring long_options
       \<lparr>scanned = sc, nonopts = ns, nextchar = [], remaining = pre @ ''-h'' # rest\<rparr>
     = (\<lparr>ret = of_char CHR ''h'', optarg = None, flag_store = None\<rparr>,
        \<lparr>scanned = sc @ [''-h''], nonopts = ns @ pre, nextchar = [], remaining = rest\<rparr>)"
  using assms
  by (simp add: getopt_long_def takeWhile_nonoption dropWhile_nonoption nonoption_def
      process_short_option_def optstring_def)

lemma find_long_help:
  "find_long long_options ''help''
     = Found \<lparr>name = ''help'', has_arg = no_argument, flag = Some ''do_help'', val = 1\<rparr>"
  by (simp add: find_long_def long_options_def)

lemma getopt_long_help:
  assumes "\<forall>a\<in>set pre. nonoption a"
  shows "getopt_long optstring long_options
       \<lparr>scanned = sc, nonopts = ns, nextchar = [], remaining = pre @ ''--help'' # rest\<rparr>
     = (\<lparr>ret = 0, optarg = None, flag_store = Some (''do_help'', 1)\<rparr>,
        \<lparr>scanned = sc @ [''--help''], nonopts = ns @ pre, nextchar = [], remaining = rest\<rparr>)"
  using assms
  by (simp add: getopt_long_def takeWhile_nonoption dropWhile_nonoption nonoption_def
      process_long_option_def find_long_help found_ret_def)


lemma dropWhile_map_Task:
  "e \<notin> range Task \<Longrightarrow> dropWhile (\<lambda>x. x \<noteq> e) (map Task ts @ xs) = dropWhile (\<lambda>x. x \<noteq> e) xs"
  by (induction ts) auto

lemma main_E32_data_bin:
  "trace (main E32 [''extract'', ''-f'', ''data.bin''])
     = [New_runner, New_fsm, Fsm_start, Controller_start, On_logger_ready, Run,
        Task (Dumpfile \<lparr>input_file = ''data.bin'', log_file = [], output_file = ''out'',
            overrides = \<lparr>block_size = 0, extent_size = 0, mod_count = 0\<rparr>\<rparr>),
        Run_returned, Controller_shutdown, On_logger_shutdown, Pool_shutdown,
        Delete_runner, Delete_fsm, Return_main 0]"
  by code_simp

section \<open>Lemmas about \<^verbatim>\<open>strtol\<close> and decimal numerals\<close>

lemma isdigit_digit_val: "isdigit c \<Longrightarrow> 0 \<le> digit_val c \<and> digit_val c \<le> 9"
  by (auto simp: isdigit_def digit_val_def)

lemma foldl_digits_nonneg:
  "list_all isdigit ds \<Longrightarrow> 0 \<le> acc \<Longrightarrow> acc \<le> foldl (\<lambda>acc c. acc * 10 + digit_val c) acc ds"
proof (induction ds arbitrary: acc)
  case Nil
  then show ?case by simp
next
  case (Cons c ds)
  then have "0 \<le> digit_val c" by (simp add: isdigit_digit_val)
  with Cons.prems have "acc \<le> acc * 10 + digit_val c" by simp
  moreover from Cons have "acc * 10 + digit_val c
      \<le> foldl (\<lambda>acc c. acc * 10 + digit_val c) (acc * 10 + digit_val c) ds"
    using \<open>0 \<le> digit_val c\<close> by (intro Cons.IH) simp_all
  ultimately show ?case by simp
qed

lemma digits_val_nonneg: "list_all isdigit ds \<Longrightarrow> 0 \<le> digits_val ds"
  using foldl_digits_nonneg [of ds 0] by (simp add: digits_val_def)

lemma digits_val_snoc: "digits_val (ds @ [c]) = digits_val ds * 10 + digit_val c"
  by (simp add: digits_val_def)

lemma digit_char:
  "d < 10 \<Longrightarrow> isdigit (''0123456789'' ! d) \<and> digit_val (''0123456789'' ! d) = int d
     \<and> \<not> isspace (''0123456789'' ! d) \<and> ''0123456789'' ! d \<noteq> CHR ''-''
     \<and> ''0123456789'' ! d \<noteq> CHR ''+''"
proof -
  assume "d < 10"
  then have "d \<in> {0, 1, 2, 3, 4, 5, 6, 7, 8, 9}" by auto
  then show ?thesis
    by (auto simp: isdigit_def digit_val_def isspace_def)
qed

lemma dec_digits: "list_all isdigit (dec n)"
proof (induction n rule: dec.induct)
  case (1 n)
  then show ?case
    by (subst dec.simps) (simp add: digit_char)
qed

lemma dec_nonempty: "dec n \<noteq> []"
  by (subst dec.simps) simp

lemma digits_val_dec: "digits_val (dec n) = int n"
proof (induction n rule: dec.induct)
  case (1 n)
  show ?case
  proof (cases "n < 10")
    case True
    then show ?thesis
      by (subst dec.simps) (simp add: digits_val_def digit_char)
  next
    case False
    with 1 have "digits_val (dec (n div 10)) = int (n div 10)" by simp
    with False show ?thesis
      by (subst dec.simps) (simp add: digits_val_snoc digit_char zdiv_int zmod_int)
  qed
qed


lemma isdigit_not_sign: "isdigit c \<Longrightarrow> \<not> isspace c \<and> c \<noteq> CHR ''-'' \<and> c \<noteq> CHR ''+''"
  by (auto simp: isdigit_def isspace_def)

lemma strtol_Nil:
  "dropWhile isspace s = [] \<Longrightarrow> strtol s = (0, s)"
  by (simp add: strtol_def Let_def del: dropWhile_eq_Nil_conv)

lemma strtol_minus:
  "dropWhile isspace s = CHR ''-'' # r \<Longrightarrow>
     strtol s = (if takeWhile isdigit r = [] then (0, s)
                 else (max LONG_MIN (min LONG_MAX (- digits_val (takeWhile isdigit r))),
                       dropWhile isdigit r))"
  by (simp add: strtol_def Let_def del: dropWhile_eq_Nil_conv)

lemma strtol_plus:
  "dropWhile isspace s = CHR ''+'' # r \<Longrightarrow>
     strtol s = (if takeWhile isdigit r = [] then (0, s)
                 else (max LONG_MIN (min LONG_MAX (digits_val (takeWhile isdigit r))),
                       dropWhile isdigit r))"
  by (simp add: strtol_def Let_def del: dropWhile_eq_Nil_conv)

lemma strtol_unsigned:
  "dropWhile isspace s = c # r \<Longrightarrow> c \<noteq> CHR ''-'' \<Longrightarrow> c \<noteq> CHR ''+'' \<Longrightarrow>
     strtol s = (if takeWhile isdigit (c # r) = [] then (0, s)
                 else (max LONG_MIN (min LONG_MAX (digits_val (takeWhile isdigit (c # r)))),
                       dropWhile isdigit (c # r)))"
  by (simp add: strtol_def Let_def del: dropWhile_eq_Nil_conv)

lemma positive_integer_Nil:
  "dropWhile isspace s = [] \<Longrightarrow> \<not> positive_integer s"
  by (simp add: positive_integer_def Let_def del: dropWhile_eq_Nil_conv)

lemma positive_integer_plus:
  "dropWhile isspace s = CHR ''+'' # r \<Longrightarrow>
     positive_integer s = (r \<noteq> [] \<and> list_all isdigit r \<and> 0 < digits_val r)"
  by (simp add: positive_integer_def Let_def del: dropWhile_eq_Nil_conv)

lemma positive_integer_unsigned:
  "dropWhile isspace s = c # r \<Longrightarrow> c \<noteq> CHR ''+'' \<Longrightarrow>
     positive_integer s = (list_all isdigit (c # r) \<and> 0 < digits_val (c # r))"
  by (simp add: positive_integer_def Let_def del: dropWhile_eq_Nil_conv)

lemma all_digits:
  "list_all isdigit ds \<longleftrightarrow> takeWhile isdigit ds = ds \<and> dropWhile isdigit ds = []"
  by (auto simp: list_all_iff dropWhile_eq_Nil_conv)

lemma takeWhile_digits_nonneg: "0 \<le> digits_val (takeWhile isdigit r)"
  by (rule digits_val_nonneg) (auto simp: list_all_iff dest: set_takeWhileD)

lemma positive_digits_iff:
  "takeWhile isdigit r \<noteq> [] \<and> dropWhile isdigit r = []
     \<and> 0 < max LONG_MIN (min LONG_MAX (digits_val (takeWhile isdigit r)))
   \<longleftrightarrow> r \<noteq> [] \<and> list_all isdigit r \<and> 0 < digits_val r"
proof (cases "list_all isdigit r")
  case True
  then have tw: "takeWhile isdigit r = r" and dw: "dropWhile isdigit r = []"
    by (simp_all only: all_digits)
  show ?thesis
    unfolding tw dw using True by (auto simp: LONG_MIN_def LONG_MAX_def)
next
  case False
  then have "dropWhile isdigit r \<noteq> []"
    by (simp only: all_digits) auto
  with False show ?thesis by simp
qed

lemma strtol_signless_iff:
  assumes "strtol s = (if takeWhile isdigit r = [] then (0, s)
                 else (max LONG_MIN (min LONG_MAX (digits_val (takeWhile isdigit r))),
                       dropWhile isdigit r))"
  shows "snd (strtol s) = [] \<and> 0 < fst (strtol s)
     \<longleftrightarrow> r \<noteq> [] \<and> list_all isdigit r \<and> 0 < digits_val r"
proof (cases "takeWhile isdigit r = []")
  case True
  with assms have "fst (strtol s) = 0" by simp
  moreover from True have "\<not> (r \<noteq> [] \<and> list_all isdigit r \<and> 0 < digits_val r)"
    using positive_digits_iff [of r] by blast
  ultimately show ?thesis by simp
next
  case False
  with assms have "snd (strtol s) = dropWhile isdigit r"
    and "fst (strtol s) = max LONG_MIN (min LONG_MAX (digits_val (takeWhile isdigit r)))"
    by simp_all
  with False show ?thesis
    using positive_digits_iff [of r] by simp
qed

lemma strtol_iff_positive:
  "snd (strtol s) = [] \<and> 0 < fst (strtol s) \<longleftrightarrow> positive_integer s"
proof (cases "dropWhile isspace s")
  case Nil
  then show ?thesis
    by (simp add: strtol_Nil positive_integer_Nil del: dropWhile_eq_Nil_conv)
next
  case (Cons c r)
  consider (minus) "c = CHR ''-''" | (plus) "c = CHR ''+''"
    | (other) "c \<noteq> CHR ''-''" "c \<noteq> CHR ''+''"
    by blast
  then show ?thesis
  proof cases
    case minus
    have "\<not> isdigit CHR ''-''"
      by (simp add: isdigit_def)
    with minus Cons takeWhile_digits_nonneg [of r] show ?thesis
      by (simp add: strtol_minus positive_integer_unsigned LONG_MIN_def LONG_MAX_def max_def)
  next
    case plus
    with Cons have d: "dropWhile isspace s = CHR ''+'' # r" by simp
    have p: "positive_integer s = (r \<noteq> [] \<and> list_all isdigit r \<and> 0 < digits_val r)"
      using d by (rule positive_integer_plus)
    from strtol_signless_iff [OF strtol_plus [OF d]] p show ?thesis
      by blast
  next
    case other
    have p: "positive_integer s = (list_all isdigit (c # r) \<and> 0 < digits_val (c # r))"
      using Cons other(2) by (rule positive_integer_unsigned)
    have "strtol s =
       (if takeWhile isdigit (c # r) = [] then (0, s)
        else (max LONG_MIN (min LONG_MAX (digits_val (takeWhile isdigit (c # r)))),
              dropWhile isdigit (c # r)))"
      using Cons other by (rule strtol_unsigned)
    from strtol_signless_iff [OF this] p show ?thesis
      by blast
  qed
qed

lemma strtol_digits:
  assumes "ds \<noteq> []" and "list_all isdigit ds"
  shows "strtol ds = (min LONG_MAX (digits_val ds), [])"
proof -
  from assms obtain c cs where ds: "ds = c # cs" and c: "isdigit c"
    by (cases ds) auto
  from assms(2) have tw: "takeWhile isdigit (c # cs) = c # cs"
    and dw: "dropWhile isdigit (c # cs) = []"
    by (simp_all only: all_digits ds)
  have sp: "dropWhile isspace ds = c # cs"
    using c by (simp add: ds isdigit_not_sign)
  have nn: "0 \<le> digits_val (c # cs)"
    using digits_val_nonneg [OF assms(2)] by (simp only: ds)
  have "strtol ds =
     (if takeWhile isdigit (c # cs) = [] then (0, ds)
      else (max LONG_MIN (min LONG_MAX (digits_val (takeWhile isdigit (c # cs)))),
            dropWhile isdigit (c # cs)))"
    using sp by (rule strtol_unsigned) (use c in \<open>simp_all add: isdigit_not_sign\<close>)
  also have "\<dots> = (min LONG_MAX (digits_val (c # cs)), [])"
    using nn by (simp only: tw dw) (simp add: LONG_MIN_def LONG_MAX_def)
  finally show ?thesis
    by (simp only: ds)
qed

lemma strtol_dec: "int n \<le> LONG_MAX \<Longrightarrow> strtol (dec n) = (int n, [])"
  by (simp add: strtol_digits dec_nonempty dec_digits digits_val_dec)

lemma strtol_range: "LONG_MIN \<le> fst (strtol s) \<and> fst (strtol s) \<le> LONG_MAX"
  by (simp add: strtol_def Let_def LONG_MIN_def LONG_MAX_def)

lemma strtol_not_positive:
  assumes "\<not> positive_integer s" and "snd (strtol s) = []"
  shows "fst (strtol s) \<le> 0"
  using assms strtol_iff_positive [of s] by auto

lemma sint_word_of_int_self:
  assumes "- (2 ^ (LENGTH('w::len) - 1)) \<le> v" and "v < 2 ^ (LENGTH('w) - 1)"
  shows "sint (word_of_int v :: 'w word) = v"
  using assms by (simp add: sint_sbintrunc' signed_take_bit_int_eq_self)



lemma decimal_of_dec: "decimal_of n (dec n)"
proof -
  from dec_nonempty [of n] dec_digits [of n] obtain c cs
    where d: "dec n = c # cs" and c: "isdigit c"
    by (cases "dec n") auto
  from c have "\<not> isspace c" "c \<noteq> CHR ''+''"
    by (simp_all add: isdigit_not_sign)
  then have "decimal_of n (c # cs) = (list_all isdigit (c # cs) \<and> digits_val (c # cs) = int n)"
    by (simp add: decimal_of_def Let_def)
  with dec_digits [of n] digits_val_dec [of n] show ?thesis
    by (simp add: d)
qed

section \<open>Lemmas about the options of this program\<close>

lemma find_long_overrides:
  "find_long long_options ''force-block-size''
     = Found \<lparr>name = ''force-block-size'', has_arg = required_argument, flag = None,
         val = force_block_size\<rparr>"
  "find_long long_options ''force-extent-size''
     = Found \<lparr>name = ''force-extent-size'', has_arg = required_argument, flag = None,
         val = force_extent_size\<rparr>"
  "find_long long_options ''force-mod-count''
     = Found \<lparr>name = ''force-mod-count'', has_arg = required_argument, flag = None,
         val = force_mod_count\<rparr>"
  by (simp_all add: find_long_def long_options_def)

lemma takeWhile_name:
  "CHR ''='' \<notin> set nm \<Longrightarrow> takeWhile (\<lambda>c. c \<noteq> CHR ''='') (nm @ CHR ''='' # a) = nm"
  "CHR ''='' \<notin> set nm \<Longrightarrow> dropWhile (\<lambda>c. c \<noteq> CHR ''='') (nm @ CHR ''='' # a) = CHR ''='' # a"
  "CHR ''='' \<notin> set nm \<Longrightarrow> takeWhile (\<lambda>c. c \<noteq> CHR ''='') nm = nm"
  "CHR ''='' \<notin> set nm \<Longrightarrow> dropWhile (\<lambda>c. c \<noteq> CHR ''='') nm = []"
  by (induction nm) auto

lemma getopt_long_required:
  assumes pre: "\<forall>a\<in>set pre. nonoption a"
    and p: "find_long long_options nm = Found p" "has_arg p = required_argument" "flag p = None"
    and nm: "nm \<noteq> []" "CHR ''='' \<notin> set nm"
  shows "getopt_long optstring long_options
       \<lparr>scanned = sc, nonopts = ns, nextchar = [], remaining = pre @ (''--'' @ nm) # a # rest\<rparr>
     = (\<lparr>ret = val p, optarg = Some a, flag_store = None\<rparr>,
        \<lparr>scanned = sc @ [''--'' @ nm, a], nonopts = ns @ pre, nextchar = [], remaining = rest\<rparr>)"
    and "getopt_long optstring long_options
       \<lparr>scanned = sc, nonopts = ns, nextchar = [],
        remaining = pre @ (''--'' @ nm @ ''='' @ a) # rest\<rparr>
     = (\<lparr>ret = val p, optarg = Some a, flag_store = None\<rparr>,
        \<lparr>scanned = sc @ [''--'' @ nm @ ''='' @ a], nonopts = ns @ pre, nextchar = [],
         remaining = rest\<rparr>)"
proof -
  show "getopt_long optstring long_options
       \<lparr>scanned = sc, nonopts = ns, nextchar = [], remaining = pre @ (''--'' @ nm) # a # rest\<rparr>
     = (\<lparr>ret = val p, optarg = Some a, flag_store = None\<rparr>,
        \<lparr>scanned = sc @ [''--'' @ nm, a], nonopts = ns @ pre, nextchar = [], remaining = rest\<rparr>)"
    using pre p nm
    by (simp add: getopt_long_def nonoption_def process_long_option_def takeWhile_name
        found_ret_def)
  show "getopt_long optstring long_options
       \<lparr>scanned = sc, nonopts = ns, nextchar = [],
        remaining = pre @ (''--'' @ nm @ ''='' @ a) # rest\<rparr>
     = (\<lparr>ret = val p, optarg = Some a, flag_store = None\<rparr>,
        \<lparr>scanned = sc @ [''--'' @ nm @ ''='' @ a], nonopts = ns @ pre, nextchar = [],
         remaining = rest\<rparr>)"
    using pre p nm
    by (simp add: getopt_long_def nonoption_def process_long_option_def takeWhile_name
        found_ret_def)
qed

lemma switch_c_overrides:
  fixes config :: "'w::len extract_config_t"
  shows "switch_c dflt prog force_block_size (Some s) config =
     (if snd (strtol s) \<noteq> [] \<or> sint (word_of_int (fst (strtol s)) :: 'w word) \<le> 0
      then Inl (Fail ''Block size must be a positive integer.\<newline>'' [])
      else Inr (config\<lparr>overrides := (overrides config)
                  \<lparr>block_size := word_of_int (fst (strtol s))\<rparr>\<rparr>))"
    and "switch_c dflt prog force_extent_size (Some s) config =
     (if snd (strtol s) \<noteq> [] \<or> sint (word_of_int (fst (strtol s)) :: 'w word) \<le> 0
      then Inl (Fail ''Extent size must be a positive integer.\<newline>'' [])
      else Inr (config\<lparr>overrides := (overrides config)
                  \<lparr>extent_size := word_of_int (fst (strtol s))\<rparr>\<rparr>))"
    and "switch_c dflt prog force_mod_count (Some s) config =
     (if snd (strtol s) \<noteq> [] \<or> sint (word_of_int (fst (strtol s)) :: 'w word) \<le> 0
      then Inl (Fail ''The mod count must be a positive integer.\<newline>'' [])
      else Inr (config\<lparr>overrides := (overrides config)
                  \<lparr>mod_count := word_of_int (fst (strtol s))\<rparr>\<rparr>))"
  by (simp_all add: switch_c_def force_block_size_def force_extent_size_def force_mod_count_def
      split: prod.splits)

lemma override_rejected:
  assumes "\<not> positive_integer s"
    and "snd (strtol s) \<noteq> [] \<or> - (2 ^ (LENGTH('w::len) - 1)) \<le> fst (strtol s)"
  shows "snd (strtol s) \<noteq> [] \<or> sint (word_of_int (fst (strtol s)) :: 'w word) \<le> 0"
proof (cases "snd (strtol s) = []")
  case True
  with assms(1) have le: "fst (strtol s) \<le> 0"
    by (rule strtol_not_positive)
  then have "fst (strtol s) < 2 ^ (LENGTH('w) - 1)"
    by (smt (verit) zero_less_power)
  moreover from True assms(2) have "- (2 ^ (LENGTH('w) - 1)) \<le> fst (strtol s)"
    by simp
  ultimately have "sint (word_of_int (fst (strtol s)) :: 'w word) = fst (strtol s)"
    by (intro sint_word_of_int_self)
  with le show ?thesis by simp
next
  case False
  then show ?thesis by simp
qed

lemma main_aborts:
  fixes env :: "'w::len environment"
  assumes "\<not> sigaction_res env < 0"
    and "(parse_cmd_args (default_output env) argv :: abort + 'w extract_config_t) = Inl a"
  shows "trace (main env argv)
           = [New_runner, New_fsm, Fsm_start, Controller_start, On_logger_ready, Run,
              Task (Aborted a)]
       \<and> ended (main env argv)"
  using assms(1) extractmain_Inl [OF assms(2)] by (simp add: main_ends)

lemma not_positive_abc: "\<not> positive_integer ''abc''"
  by code_simp

lemma strtol_abc: "strtol ''abc'' = (0, ''abc'')"
  by code_simp

lemma getopt_long_f:
  assumes "\<forall>a\<in>set pre. nonoption a"
  shows "getopt_long optstring long_options
       \<lparr>scanned = sc, nonopts = ns, nextchar = [], remaining = pre @ ''-f'' # a # rest\<rparr>
     = (\<lparr>ret = of_char CHR ''f'', optarg = Some a, flag_store = None\<rparr>,
        \<lparr>scanned = sc @ [''-f'', a], nonopts = ns @ pre, nextchar = [], remaining = rest\<rparr>)"
  using assms
  by (simp add: getopt_long_def takeWhile_nonoption dropWhile_nonoption nonoption_def
      process_short_option_def optstring_def)

lemma getopt_long_end:
  assumes "\<forall>a\<in>set pre. nonoption a"
  shows "getopt_long optstring long_options
       \<lparr>scanned = sc, nonopts = ns, nextchar = [], remaining = pre\<rparr>
     = (end_ret, \<lparr>scanned = sc, nonopts = ns @ pre, nextchar = [], remaining = []\<rparr>)"
  using assms
  by (simp add: getopt_long_def takeWhile_eq_all_conv [THEN iffD2]
      dropWhile_eq_Nil_conv [THEN iffD2])















section \<open>Lemmas about the scan as a whole\<close>

text \<open>
  How the scan reads the forms in which the options are written, in whatever state it
  is: each of these steps finds one option and goes on behind it.
\<close>

lemma getopt_all_step:
  "getopt_long optstring long_options d = (r, d') \<Longrightarrow> c_of r \<noteq> - 1 \<Longrightarrow>
     getopt_all d = (c_of r, optarg r) # getopt_all d'"
  by (subst getopt_all.simps) simp

lemma getopt_all_h:
  assumes "\<forall>a\<in>set pre. nonoption a"
  shows "getopt_all \<lparr>scanned = sc, nonopts = ns, nextchar = [], remaining = pre @ ''-h'' # rest\<rparr>
     = (of_char CHR ''h'', None)
       # getopt_all \<lparr>scanned = sc @ [''-h''], nonopts = ns @ pre, nextchar = [], remaining = rest\<rparr>"
  using getopt_all_step [OF getopt_long_h [OF assms, of sc ns rest]]
  by (simp add: c_of_def do_help_of_def)

lemma getopt_all_help:
  assumes "\<forall>a\<in>set pre. nonoption a"
  shows "getopt_all \<lparr>scanned = sc, nonopts = ns, nextchar = [], remaining = pre @ ''--help'' # rest\<rparr>
     = (of_char CHR ''h'', None)
       # getopt_all \<lparr>scanned = sc @ [''--help''], nonopts = ns @ pre, nextchar = [],
           remaining = rest\<rparr>"
  using getopt_all_step [OF getopt_long_help [OF assms, of sc ns rest]]
  by (simp add: c_of_def do_help_of_def)

lemma getopt_all_f:
  assumes "\<forall>a\<in>set pre. nonoption a"
  shows "getopt_all \<lparr>scanned = sc, nonopts = ns, nextchar = [], remaining = pre @ ''-f'' # a # rest\<rparr>
     = (of_char CHR ''f'', Some a)
       # getopt_all \<lparr>scanned = sc @ [''-f'', a], nonopts = ns @ pre, nextchar = [],
           remaining = rest\<rparr>"
  using getopt_all_step [OF getopt_long_f [OF assms, of sc ns a rest]]
  by (simp add: c_of_def do_help_of_def)

lemma getopt_all_required:
  assumes pre: "\<forall>a\<in>set pre. nonoption a"
    and p: "find_long long_options nm = Found p" "has_arg p = required_argument" "flag p = None"
    and nm: "nm \<noteq> []" "CHR ''='' \<notin> set nm"
    and v: "val p \<noteq> - 1"
  shows "getopt_all
       \<lparr>scanned = sc, nonopts = ns, nextchar = [], remaining = pre @ (''--'' @ nm) # a # rest\<rparr>
     = (val p, Some a)
       # getopt_all \<lparr>scanned = sc @ [''--'' @ nm, a], nonopts = ns @ pre, nextchar = [],
           remaining = rest\<rparr>"
    and "getopt_all
       \<lparr>scanned = sc, nonopts = ns, nextchar = [],
        remaining = pre @ (''--'' @ nm @ ''='' @ a) # rest\<rparr>
     = (val p, Some a)
       # getopt_all \<lparr>scanned = sc @ [''--'' @ nm @ ''='' @ a], nonopts = ns @ pre, nextchar = [],
           remaining = rest\<rparr>"
  using getopt_all_step [OF getopt_long_required(1) [OF pre p nm, of sc ns a rest]]
    getopt_all_step [OF getopt_long_required(2) [OF pre p nm, of sc ns a rest]] v
  by (simp_all add: c_of_def do_help_of_def)

text \<open>
  For example, behind \<^verbatim>\<open>-f x\<close> the scan finds a help flag or an override option as it
  does in the first place, whatever \<open>x\<close> is and whatever follows.
\<close>

lemma getopt_all_f_h:
  "getopt_all (getopt_init (prog # ''-f'' # x # ''-h'' # rest))
     = [(of_char CHR ''f'', Some x)] @ (of_char CHR ''h'', None)
         # getopt_all \<lparr>scanned = [prog, ''-f'', x, ''-h''], nonopts = [], nextchar = [],
             remaining = rest\<rparr>"
  using getopt_all_f [of "[]" "[prog]" "[]" x "''-h'' # rest"]
    getopt_all_h [of "[]" "[prog, ''-f'', x]" "[]" rest]
  by (simp add: getopt_init_def)

lemma getopt_all_f_override:
  "getopt_all (getopt_init (prog # ''-f'' # x # ''--force-block-size'' # s # rest))
     = [(of_char CHR ''f'', Some x)] @ (force_block_size, Some s)
         # getopt_all \<lparr>scanned = [prog, ''-f'', x, ''--force-block-size'', s], nonopts = [],
             nextchar = [], remaining = rest\<rparr>"
  using getopt_all_f [of "[]" "[prog]" "[]" x "''--force-block-size'' # s # rest"]
    getopt_all_required(1) [OF _ find_long_overrides(1), of "[]" "[prog, ''-f'', x]" "[]" s rest]
  by (simp add: getopt_init_def force_block_size_def)

text \<open>
  The loop is the switch applied to the options of the scan in turn, and
  \<^verbatim>\<open>parse_cmd_args\<close> the checks of lines 114 to 128 behind that.
\<close>

lemma getopt_long_argv0:
  assumes "getopt_long os lo d = (r, d')" and "scanned d \<noteq> []"
  shows "scanned d' \<noteq> [] \<and> argv0 d' = argv0 d"
  using assms
  by (auto simp: getopt_long_def process_long_option_def process_short_option_def
      argv0_def Let_def
      split: if_splits list.splits lookup.splits option.splits)

lemma parse_loop_scan:
  "scanned d \<noteq> [] \<Longrightarrow>
     parse_loop dflt config d =
       (case switch_all dflt (argv0 d) (getopt_all d) config of
          Inl a \<Rightarrow> Inl a
        | Inr cfg \<Rightarrow> Inr (cfg, getopt_end d))"
proof (induction dflt config d rule: parse_loop.induct)
  case (1 dflt config d)
  obtain r d1 where g: "getopt_long optstring long_options d = (r, d1)"
    by (cases "getopt_long optstring long_options d")
  from getopt_long_argv0 [OF g "1.prems"] have sc: "scanned d1 \<noteq> []" and a0: "argv0 d1 = argv0 d"
    by simp_all
  show ?case
  proof (cases "c_of r = - 1")
    case True
    with g have "getopt_all d = []" "getopt_end d = d1"
      by (subst getopt_all.simps getopt_end.simps, simp)+
    with True g show ?thesis
      by (simp add: parse_loop_end)
  next
    case False
    with g have ga: "getopt_all d = (c_of r, optarg r) # getopt_all d1"
      and ge: "getopt_end d = getopt_end d1"
      by (subst getopt_all.simps getopt_end.simps, simp)+
    show ?thesis
    proof (cases "switch_c dflt (argv0 d1) (c_of r) (optarg r) config")
      case (Inl a)
      with g False have "parse_loop dflt config d = Inl a"
        by (intro parse_loop_abort)
      with Inl show ?thesis
        by (simp add: ga a0 [symmetric])
    next
      case (Inr config1)
      with g False have "parse_loop dflt config d = parse_loop dflt config1 d1"
        by (intro parse_loop_step)
      also note "1.IH" [OF g [symmetric] False Inr sc]
      finally show ?thesis
        using Inr by (simp add: ga ge a0 [symmetric] cong: sum.case_cong)
    qed
  qed
qed

lemma switch_all_append:
  "switch_all dflt prog (xs @ ys) config =
     (case switch_all dflt prog xs config of
        Inl a \<Rightarrow> Inl a
      | Inr config' \<Rightarrow> switch_all dflt prog ys config')"
  by (induction xs arbitrary: config) (auto split: sum.splits)

lemma switch_all_split:
  fixes cfg :: "'w::len extract_config_t"
  shows "switch_all dflt prog (pre @ (c, oa) # post) cfg0 =
     (case switch_all dflt prog pre cfg0 of
        Inl a \<Rightarrow> Inl a
      | Inr cfg \<Rightarrow>
          (case switch_c dflt prog c oa cfg of
             Inl a \<Rightarrow> Inl a
           | Inr cfg1 \<Rightarrow> switch_all dflt prog post cfg1))"
  by (simp add: switch_all_append split: sum.splits)

lemma parse_cmd_args_scan:
  "(parse_cmd_args dflt (prog # args) :: abort + 'w::len extract_config_t) =
     (case switch_all dflt prog (getopt_all (getopt_init (prog # args))) (init dflt) of
        Inl a \<Rightarrow> Inl a
      | Inr config \<Rightarrow>
          if optind (getopt_end (getopt_init (prog # args))) < length (prog # args) then
            Inl (Fail (''Unexpected extra argument: '' @ dquote @ ''%s'' @ dquote)
                   [Arg_s (argv_of (getopt_end (getopt_init (prog # args)))
                      ! optind (getopt_end (getopt_init (prog # args))))])
          else if input_file config = [] then
            Inl (Fail ''You must explicitly specify a path with -f.'' [])
          else if extent_size (overrides config) \<noteq> 0 \<and> block_size (overrides config) \<noteq> 0
              \<and> sint (extent_size (overrides config)) smod sint (block_size (overrides config)) \<noteq> 0
          then
            Inl (Fail ''The forced extent size (%d) is not a multiple of the forced block size (%d).''
                   [Arg_d (sint (extent_size (overrides config))),
                    Arg_d (sint (block_size (overrides config)))])
          else Inr config)"
proof -
  have s: "scanned (getopt_init (prog # args)) \<noteq> []"
    and a: "argv0 (getopt_init (prog # args)) = prog"
    by (simp_all add: getopt_init_def argv0_def)
  show ?thesis
    unfolding parse_cmd_args_def parse_loop_scan [OF s] a
    by (simp split: sum.splits)
qed

lemma parse_cmd_args_scan_abort:
  assumes "switch_all dflt prog (getopt_all (getopt_init (prog # args)))
      (init dflt :: 'w::len extract_config_t) = Inl a"
  shows "(parse_cmd_args dflt (prog # args) :: abort + 'w extract_config_t) = Inl a"
  unfolding parse_cmd_args_scan using assms by simp


lemma switch_all_help:
  fixes cfg0 :: "'w::len extract_config_t"
  shows "switch_all dflt prog (pre @ (of_char CHR ''h'', oa) # post) cfg0 =
     (case switch_all dflt prog pre cfg0 of
        Inl a \<Rightarrow> Inl a
      | Inr cfg \<Rightarrow> Inl (usage dflt prog))"
  by (simp only: switch_all_split switch_c_help sum.case)

lemma override_options_cases:
  assumes "(c, msg) \<in> set override_options"
  shows "(c = force_block_size \<and> msg = ''Block size must be a positive integer.\<newline>'')
    \<or> (c = force_extent_size \<and> msg = ''Extent size must be a positive integer.\<newline>'')
    \<or> (c = force_mod_count \<and> msg = ''The mod count must be a positive integer.\<newline>'')"
  using assms by (auto simp: override_options_def)

lemma set_override_simps:
  "set_override force_block_size v config = config\<lparr>overrides := (overrides config)\<lparr>block_size := v\<rparr>\<rparr>"
  "set_override force_extent_size v config = config\<lparr>overrides := (overrides config)\<lparr>extent_size := v\<rparr>\<rparr>"
  "set_override force_mod_count v config = config\<lparr>overrides := (overrides config)\<lparr>mod_count := v\<rparr>\<rparr>"
  by (simp_all add: set_override_def force_block_size_def force_extent_size_def
      force_mod_count_def)

lemma switch_c_override:
  fixes config :: "'w::len extract_config_t"
  assumes "(c, msg) \<in> set override_options"
  shows "switch_c dflt prog c (Some s) config =
     (if snd (strtol s) = [] \<and> 0 < sint (word_of_int (fst (strtol s)) :: 'w word)
      then Inr (set_override c (word_of_int (fst (strtol s))) config)
      else Inl (Fail msg []))"
  using override_options_cases [OF assms]
proof (elim disjE conjE)
  assume "c = force_block_size" "msg = ''Block size must be a positive integer.\<newline>''"
  then show ?thesis
    by (simp only: switch_c_overrides(1) set_override_simps(1)) (simp add: not_le not_less)
next
  assume "c = force_extent_size" "msg = ''Extent size must be a positive integer.\<newline>''"
  then show ?thesis
    by (simp only: switch_c_overrides(2) set_override_simps(2)) (simp add: not_le not_less)
next
  assume "c = force_mod_count" "msg = ''The mod count must be a positive integer.\<newline>''"
  then show ?thesis
    by (simp only: switch_c_overrides(3) set_override_simps(3)) (simp add: not_le not_less)
qed




lemma default_output_E32: "default_output E32 = ''out''"
  by (simp add: E32_def)

lemma sigaction_E32: "\<not> sigaction_res E32 < 0"
  by (simp add: E32_def)







section \<open>The claims about the state machine\<close>

text \<open>
  C1. Whatever the log controller does on \<^verbatim>\<open>start\<close> (it returns true, or it returns
  false and the worker later makes the callback it owes, once), and whatever the runner
  does, a call of \<^verbatim>\<open>start()\<close> on a state machine, in a process that lives and owes no
  callback, leads to exactly one more call of \<^verbatim>\<open>on_logger_ready()\<close> by the time the
  worker is idle: not none, not two.
\<close>

theorem start_on_ready_exactly_once:
  assumes "ready_cb w = None" and "shutdown_cb w = None" and "\<not> ended w"
  shows "count_list (trace (worker env (start this env w))) On_logger_ready
           = count_list (trace w) On_logger_ready + 1"
proof (cases "run (runner this)")
  case (Returns ts)
  with assms show ?thesis
    by (simp add: lifecycle_returns count_list_map_Task image_iff)
next
  case (Ends_process ts)
  with assms show ?thesis
    by (simp add: lifecycle_ends count_list_map_Task image_iff)
qed

theorem start_on_ready_exactly_once_witness:
  "ready_cb (boot\<lparr>live_runner := True, live_fsm := True\<rparr> :: unit world) = None
   \<and> shutdown_cb (boot\<lparr>live_runner := True, live_fsm := True\<rparr> :: unit world) = None
   \<and> \<not> ended (boot\<lparr>live_runner := True, live_fsm := True\<rparr> :: unit world)
   \<and> count_list
         (trace (worker \<lparr>start_inline = False, shutdown_inline = False\<rparr>
            (start \<lparr>runner = \<lparr>run = Returns [()]\<rparr>\<rparr>
               \<lparr>start_inline = False, shutdown_inline = False\<rparr>
               (boot\<lparr>live_runner := True, live_fsm := True\<rparr>))))
         On_logger_ready = 1"
  using start_on_ready_exactly_once
    [of "boot\<lparr>live_runner := True, live_fsm := True\<rparr> :: unit world"
        "\<lparr>start_inline = False, shutdown_inline = False\<rparr>"
        "\<lparr>runner = \<lparr>run = Returns [()]\<rparr>\<rparr>"]
  by (simp add: boot_def)

text \<open>
  C2, as amended. In every execution of \<^verbatim>\<open>main\<close>, whatever the arguments, the log
  controller and \<^verbatim>\<open>dumpfile\<close> do: \<^verbatim>\<open>run()\<close> is called only after the loggers are ready;
  it returns only after it was called; the shutdown of the loggers is requested only
  after \<^verbatim>\<open>run()\<close> has returned; \<^verbatim>\<open>on_logger_shutdown()\<close>, the completion of that
  shutdown, comes only after the request; the pool is asked to stop only after that
  completion; and \<^verbatim>\<open>main\<close> returns 0 only after the pool was asked to stop. No event
  occurs twice, and the process always ends. When it ends otherwise than by the return
  of \<^verbatim>\<open>main\<close> (inside \<^verbatim>\<open>run()\<close>, through \<^verbatim>\<open>usage\<close>, \<^verbatim>\<open>fail\<close> or \<^verbatim>\<open>dumpfile\<close>, or
  through \<^verbatim>\<open>check\<close>) it ends with no request to shut the loggers down or to stop the
  pool.
\<close>

theorem lifecycle_order:
  fixes env :: "'w::len environment" and argv :: "string list"
  defines "tr \<equiv> trace (main env argv)"
  shows "precedes On_logger_ready Run tr
       \<and> precedes Run Run_returned tr
       \<and> precedes Run_returned Controller_shutdown tr
       \<and> precedes Controller_shutdown On_logger_shutdown tr
       \<and> precedes On_logger_shutdown Pool_shutdown tr
       \<and> precedes Pool_shutdown (Return_main 0) tr
       \<and> distinct tr
       \<and> ended (main env argv)
       \<and> (Return_main 0 \<notin> set tr \<longrightarrow> Controller_shutdown \<notin> set tr \<and> Pool_shutdown \<notin> set tr)"
proof (cases "sigaction_res env < 0")
  case True
  then show ?thesis
    unfolding tr_def by (simp add: main_check_failed)
next
  case ok: False
  show ?thesis
  proof (cases "parse_cmd_args (default_output env) argv :: abort + 'w extract_config_t")
    case (Inl a)
    then have "extractmain env argv = Ends_process [Aborted a]"
      by (rule extractmain_Inl)
    with ok show ?thesis
      unfolding tr_def by (simp add: main_ends)
  next
    case (Inr cfg)
    then have e: "extractmain env argv =
        (if dumpfile_returns env cfg then Returns [Dumpfile cfg] else Ends_process [Dumpfile cfg])"
      by (rule extractmain_Inr)
    show ?thesis
    proof (cases "dumpfile_returns env cfg")
      case True
      with e ok show ?thesis
        unfolding tr_def by (simp add: main_returns)
    next
      case False
      with e ok show ?thesis
        unfolding tr_def by (simp add: main_ends)
    qed
  qed
qed

theorem lifecycle_order_witness:
  "Return_main 0 \<in> set (trace (main E32 [''extract'', ''-f'', ''data.bin'']))
   \<and> precedes On_logger_ready Run (trace (main E32 [''extract'', ''-f'', ''data.bin'']))
   \<and> precedes Pool_shutdown (Return_main 0) (trace (main E32 [''extract'', ''-f'', ''data.bin'']))"
  using lifecycle_order [of E32 "[''extract'', ''-f'', ''data.bin'']"]
  by (simp add: main_E32_data_bin)

text \<open>
  C2 as stated fails: with \<^verbatim>\<open>--help\<close> the process exits, by the \<^verbatim>\<open>exit(-1)\<close> of
  \<^verbatim>\<open>usage\<close> inside \<^verbatim>\<open>run()\<close>, and no request to stop the pool precedes that exit.
\<close>

theorem lifecycle_order_counterexample:
  "trace (main E32 [''extract'', ''--help''])
     = [New_runner, New_fsm, Fsm_start, Controller_start, On_logger_ready, Run,
        Task (Aborted (Exit (usage_text ''out'' ''extract'') (- 1)))]
   \<and> ended (main E32 [''extract'', ''--help''])
   \<and> \<not> precedes Pool_shutdown (Task (Aborted (Exit (usage_text ''out'' ''extract'') (- 1))))
         (trace (main E32 [''extract'', ''--help'']))"
  by code_simp

text \<open>
  C3. A state machine whose two objects are allocated is started in a process that
  lives, owes no callback and has seen no fault. If \<^verbatim>\<open>on_logger_shutdown()\<close> is among
  the events that follow, then what follows it is exactly: the request to stop the
  pool, the release of the runner, the release of the state machine itself, and
  nothing after that. Each of the four happens once; in the end neither object is
  allocated, no deleted object was used or deleted again, and no callback of the state
  machine is left with the log controller.
\<close>

theorem shutdown_releases_once:
  fixes w :: "'t world" and env :: log_env and this :: "'t run_in_loggers_fsm_t"
  defines "w' \<equiv> worker env (start this env w)"
  defines "evs \<equiv> drop (length (trace w)) (trace w')"
  assumes "ready_cb w = None" and "shutdown_cb w = None" and "\<not> ended w"
    and "live_runner w" and "live_fsm w" and "\<not> fault w"
  shows "On_logger_shutdown \<in> set evs \<longrightarrow>
           dropWhile (\<lambda>e. e \<noteq> On_logger_shutdown) evs
             = [On_logger_shutdown, Pool_shutdown, Delete_runner, Delete_fsm]
         \<and> count_list evs On_logger_shutdown = 1
         \<and> count_list evs Pool_shutdown = 1
         \<and> count_list evs Delete_runner = 1
         \<and> count_list evs Delete_fsm = 1
         \<and> \<not> live_runner w' \<and> \<not> live_fsm w' \<and> \<not> fault w'
         \<and> ready_cb w' = None \<and> shutdown_cb w' = None"
proof (cases "run (runner this)")
  case (Returns ts)
  with assms(3-8) show ?thesis
    unfolding w'_def evs_def
    by (simp add: lifecycle_returns count_list_map_Task dropWhile_map_Task image_iff)
next
  case (Ends_process ts)
  with assms(3-8) show ?thesis
    unfolding w'_def evs_def
    by (auto simp add: lifecycle_ends)
qed


theorem shutdown_releases_once_witness:
  "On_logger_shutdown \<in> set (trace (worker \<lparr>start_inline = False, shutdown_inline = False\<rparr>
       (start \<lparr>runner = \<lparr>run = Returns [()]\<rparr>\<rparr> \<lparr>start_inline = False, shutdown_inline = False\<rparr>
          (boot\<lparr>live_runner := True, live_fsm := True\<rparr>))))
   \<and> count_list (trace (worker \<lparr>start_inline = False, shutdown_inline = False\<rparr>
       (start \<lparr>runner = \<lparr>run = Returns [()]\<rparr>\<rparr> \<lparr>start_inline = False, shutdown_inline = False\<rparr>
          (boot\<lparr>live_runner := True, live_fsm := True\<rparr>)))) Delete_runner = 1
   \<and> \<not> fault (worker \<lparr>start_inline = False, shutdown_inline = False\<rparr>
       (start \<lparr>runner = \<lparr>run = Returns [()]\<rparr>\<rparr> \<lparr>start_inline = False, shutdown_inline = False\<rparr>
          (boot\<lparr>live_runner := True, live_fsm := True\<rparr>)))"
  using shutdown_releases_once
    [of "boot\<lparr>live_runner := True, live_fsm := True\<rparr> :: unit world"
        "\<lparr>start_inline = False, shutdown_inline = False\<rparr>"
        "\<lparr>runner = \<lparr>run = Returns [()]\<rparr>\<rparr>"]
  by (simp add: boot_def lifecycle_returns)

section \<open>The claims about \<^verbatim>\<open>parse_cmd_args\<close>\<close>

text \<open>
  C7. For the arguments \<^verbatim>\<open>-f data.bin\<close> (after any \<^verbatim>\<open>argv[0]\<close>) parsing succeeds;
  the input file is \<^verbatim>\<open>data.bin\<close>, the output file is the default constant, the log file
  is unset and no override is set.
\<close>

theorem parse_scenario_A:
  "(parse_cmd_args default_output_file [prog, ''-f'', ''data.bin'']
      :: abort + 'w::len extract_config_t)
     = Inr \<lparr>input_file = ''data.bin'', log_file = [], output_file = default_output_file,
            overrides = \<lparr>block_size = 0, extent_size = 0, mod_count = 0\<rparr>\<rparr>"
  by code_simp

text \<open>
  C4, as amended. Let the scan of the options find a help flag, \<^verbatim>\<open>-h\<close> or \<^verbatim>\<open>--help\<close>,
  after the options \<open>pre\<close>: it is an option of the scan, not the argument of another
  option and not behind \<^verbatim>\<open>--\<close>. Then \<^verbatim>\<open>parse_cmd_args\<close> does not return. The process
  ends inside \<^verbatim>\<open>run()\<close>: by then the runner and the state machine have been constructed
  and the state machine started; \<^verbatim>\<open>dumpfile\<close> is not called and nothing is shut down.
  What ends the process is the usage text with \<^verbatim>\<open>exit(-1)\<close>, whatever follows the flag,
  unless the switch rejects an option of \<open>pre\<close>: then it is the first such rejection.
\<close>

theorem help_flag_usage:
  fixes env :: "'w::len environment" and prog :: string
    and pre :: "(int \<times> string option) list"
  defines "a \<equiv>
     (case switch_all (default_output env) prog pre
             (init (default_output env) :: 'w extract_config_t) of
        Inl a' \<Rightarrow> a'
      | Inr cfg \<Rightarrow> Exit (usage_text (default_output env) prog) (- 1))"
  assumes "getopt_all (getopt_init (prog # args)) = pre @ (of_char CHR ''h'', oa) # post"
    and "\<not> sigaction_res env < 0"
  shows "(parse_cmd_args (default_output env) (prog # args) :: abort + 'w extract_config_t)
           = Inl a
       \<and> trace (main env (prog # args))
           = [New_runner, New_fsm, Fsm_start, Controller_start, On_logger_ready, Run,
              Task (Aborted a)]
       \<and> ended (main env (prog # args))"
proof -
  let ?dflt = "default_output env"
  have "switch_all ?dflt prog (getopt_all (getopt_init (prog # args)))
        (init ?dflt :: 'w extract_config_t) = Inl a"
    unfolding a_def assms(2) switch_all_help
    by (cases "switch_all ?dflt prog pre (init ?dflt :: 'w extract_config_t)")
      (simp_all add: usage_def)
  then have p: "(parse_cmd_args ?dflt (prog # args) :: abort + 'w extract_config_t) = Inl a"
    by (rule parse_cmd_args_scan_abort)
  note ma = main_aborts [OF assms(3) p]
  from p ma [THEN conjunct1] ma [THEN conjunct2] show ?thesis
    by (intro conjI)
qed

theorem help_flag_usage_witness:
  "getopt_all (getopt_init [''extract'', ''-f'', ''x'', ''-h''])
     = [(of_char CHR ''f'', Some ''x'')] @ (of_char CHR ''h'', None) # []
   \<and> \<not> sigaction_res E32 < 0
   \<and> trace (main E32 [''extract'', ''-f'', ''x'', ''-h''])
       = [New_runner, New_fsm, Fsm_start, Controller_start, On_logger_ready, Run,
          Task (Aborted (Exit (usage_text ''out'' ''extract'') (- 1)))]
   \<and> getopt_all (getopt_init [''extract'', ''-l'', ''log'', ''--help'', ''-f'', ''y''])
     = [(of_char CHR ''l'', Some ''log'')] @ (of_char CHR ''h'', None)
         # [(of_char CHR ''f'', Some ''y'')]
   \<and> trace (main E32 [''extract'', ''-l'', ''log'', ''--help'', ''-f'', ''y''])
       = [New_runner, New_fsm, Fsm_start, Controller_start, On_logger_ready, Run,
          Task (Aborted (Exit (usage_text ''out'' ''extract'') (- 1)))]"
proof -
  have s: "getopt_all (getopt_init [''extract'', ''-f'', ''x'', ''-h''])
     = [(of_char CHR ''f'', Some ''x'')] @ (of_char CHR ''h'', None) # []"
    by code_simp
  have p: "switch_all (default_output E32) ''extract'' [(of_char CHR ''f'', Some ''x'')]
         (init (default_output E32))
       = Inr (\<lparr>input_file = ''x'', log_file = [], output_file = ''out'',
            overrides = \<lparr>block_size = 0, extent_size = 0, mod_count = 0\<rparr>\<rparr>
            :: 32 extract_config_t)"
    by code_simp
  have t: "trace (main E32 [''extract'', ''-f'', ''x'', ''-h''])
       = [New_runner, New_fsm, Fsm_start, Controller_start, On_logger_ready, Run,
          Task (Aborted (Exit (usage_text ''out'' ''extract'') (- 1)))]"
    using help_flag_usage [OF s sigaction_E32, THEN conjunct2, THEN conjunct1]
    by (simp only: p sum.case) (simp only: default_output_E32)
  have s': "getopt_all (getopt_init [''extract'', ''-l'', ''log'', ''--help'', ''-f'', ''y''])
     = [(of_char CHR ''l'', Some ''log'')] @ (of_char CHR ''h'', None)
         # [(of_char CHR ''f'', Some ''y'')]"
    by code_simp
  have p': "switch_all (default_output E32) ''extract'' [(of_char CHR ''l'', Some ''log'')]
         (init (default_output E32))
       = Inr (\<lparr>input_file = [], log_file = ''log'', output_file = ''out'',
            overrides = \<lparr>block_size = 0, extent_size = 0, mod_count = 0\<rparr>\<rparr>
            :: 32 extract_config_t)"
    by code_simp
  have t': "trace (main E32 [''extract'', ''-l'', ''log'', ''--help'', ''-f'', ''y''])
       = [New_runner, New_fsm, Fsm_start, Controller_start, On_logger_ready, Run,
          Task (Aborted (Exit (usage_text ''out'' ''extract'') (- 1)))]"
    using help_flag_usage [OF s' sigaction_E32, THEN conjunct2, THEN conjunct1]
    by (simp only: p' sum.case) (simp only: default_output_E32)
  from s sigaction_E32 t s' t' show ?thesis
    by (intro conjI)
qed

text \<open>
  C4 as stated fails three times. With \<^verbatim>\<open>-h\<close> the runner and the state machine are
  constructed before the usage text is printed. A help flag is not honoured anywhere:
  in \<^verbatim>\<open>-f -h\<close> it is the argument of \<^verbatim>\<open>-f\<close>, and parsing succeeds. And behind an
  option that the switch rejects the usage text is not printed: the process has ended
  with the message of that option.
\<close>

theorem help_flag_counterexample:
  "trace (main E32 [''extract'', ''-h''])
     = [New_runner, New_fsm, Fsm_start, Controller_start, On_logger_ready, Run,
        Task (Aborted (Exit (usage_text ''out'' ''extract'') (- 1)))]
   \<and> (parse_cmd_args ''out'' [''extract'', ''-f'', ''-h''] :: abort + 32 extract_config_t)
     = Inr \<lparr>input_file = ''-h'', log_file = [], output_file = ''out'',
            overrides = \<lparr>block_size = 0, extent_size = 0, mod_count = 0\<rparr>\<rparr>
   \<and> (parse_cmd_args ''out'' [''extract'', ''--force-block-size'', ''abc'', ''-h'']
        :: abort + 32 extract_config_t)
     = Inl (Fail ''Block size must be a positive integer.\<newline>'' [])"
  by code_simp

text \<open>
  C5, as amended. Let the scan of the options find an override option with the argument
  \<open>s\<close>, after the options \<open>pre\<close>, where \<open>s\<close> is not a positive integer and, if
  \<^verbatim>\<open>strtol\<close> consumes all of \<open>s\<close>, the value it reads is not below the least value of
  the override field (for a field as wide as \<^verbatim>\<open>long\<close> that is every \<open>s\<close>). Then \<^verbatim>\<open>parse_cmd_args\<close> does not
  return. The process ends inside \<^verbatim>\<open>run()\<close>: the runner and the state machine have been
  constructed and the state machine started by then; \<^verbatim>\<open>dumpfile\<close> is not called. What
  ends the process is the failure with the message that names the field of this
  option, whatever follows, unless the switch rejects an option of \<open>pre\<close>: then it is
  the first such rejection.
\<close>

theorem invalid_override_fails:
  fixes env :: "'w::len environment" and prog msg :: string
    and pre :: "(int \<times> string option) list"
  defines "a \<equiv>
     (case switch_all (default_output env) prog pre
             (init (default_output env) :: 'w extract_config_t) of
        Inl a' \<Rightarrow> a'
      | Inr cfg \<Rightarrow> Fail msg [])"
  assumes "getopt_all (getopt_init (prog # args)) = pre @ (c, Some s) # post"
    and "(c, msg) \<in> set override_options"
    and "\<not> positive_integer s"
    and "snd (strtol s) \<noteq> [] \<or> - (2 ^ (LENGTH('w) - 1)) \<le> fst (strtol s)"
    and "\<not> sigaction_res env < 0"
  shows "(parse_cmd_args (default_output env) (prog # args) :: abort + 'w extract_config_t)
           = Inl a
       \<and> trace (main env (prog # args))
           = [New_runner, New_fsm, Fsm_start, Controller_start, On_logger_ready, Run,
              Task (Aborted a)]
       \<and> ended (main env (prog # args))"
proof -
  let ?dflt = "default_output env"
  from override_rejected [where 'w = 'w, OF assms(4,5)]
  have rej: "\<not> (snd (strtol s) = [] \<and> 0 < sint (word_of_int (fst (strtol s)) :: 'w word))"
    by (simp add: not_less)
  have sw: "switch_c ?dflt prog c (Some s) cfg1 = Inl (Fail msg [])"
    for cfg1 :: "'w extract_config_t"
    using rej by (simp only: switch_c_override [OF assms(3)] if_False)
  have "switch_all ?dflt prog (getopt_all (getopt_init (prog # args)))
        (init ?dflt :: 'w extract_config_t) = Inl a"
    unfolding a_def assms(2) switch_all_split
    by (cases "switch_all ?dflt prog pre (init ?dflt :: 'w extract_config_t)")
      (simp_all only: sum.case sw)
  then have p: "(parse_cmd_args ?dflt (prog # args) :: abort + 'w extract_config_t) = Inl a"
    by (rule parse_cmd_args_scan_abort)
  note ma = main_aborts [OF assms(6) p]
  from p ma [THEN conjunct1] ma [THEN conjunct2] show ?thesis
    by (intro conjI)
qed

theorem invalid_override_fails_witness:
  "getopt_all (getopt_init [''extract'', ''-f'', ''x'', ''--force-block-size'', ''abc''])
     = [(of_char CHR ''f'', Some ''x'')] @ (force_block_size, Some ''abc'') # []
   \<and> (force_block_size, ''Block size must be a positive integer.\<newline>'') \<in> set override_options
   \<and> \<not> positive_integer ''abc''
   \<and> snd (strtol ''abc'') \<noteq> []
   \<and> \<not> sigaction_res E32 < 0
   \<and> trace (main E32 [''extract'', ''-f'', ''x'', ''--force-block-size'', ''abc''])
       = [New_runner, New_fsm, Fsm_start, Controller_start, On_logger_ready, Run,
          Task (Aborted (Fail ''Block size must be a positive integer.\<newline>'' []))]"
proof -
  have s: "getopt_all (getopt_init [''extract'', ''-f'', ''x'', ''--force-block-size'', ''abc''])
     = [(of_char CHR ''f'', Some ''x'')] @ (force_block_size, Some ''abc'') # []"
    by code_simp
  have m: "(force_block_size, ''Block size must be a positive integer.\<newline>'')
      \<in> set override_options"
    by (simp add: override_options_def)
  have r: "snd (strtol ''abc'') \<noteq> []"
    by (simp add: strtol_abc)
  have p: "switch_all (default_output E32) ''extract'' [(of_char CHR ''f'', Some ''x'')]
         (init (default_output E32))
       = Inr (\<lparr>input_file = ''x'', log_file = [], output_file = ''out'',
            overrides = \<lparr>block_size = 0, extent_size = 0, mod_count = 0\<rparr>\<rparr>
            :: 32 extract_config_t)"
    by code_simp
  have "trace (main E32 [''extract'', ''-f'', ''x'', ''--force-block-size'', ''abc''])
       = [New_runner, New_fsm, Fsm_start, Controller_start, On_logger_ready, Run,
          Task (Aborted (Fail ''Block size must be a positive integer.\<newline>'' []))]"
    using invalid_override_fails [where 'w = 32, OF s m not_positive_abc disjI1 [OF r]
        sigaction_E32, THEN conjunct2, THEN conjunct1]
    by (simp only: p sum.case)
  with s m not_positive_abc r sigaction_E32 show ?thesis
    by (intro conjI)
qed

text \<open>
  C5 as stated fails: with \<^verbatim>\<open>--force-block-size abc\<close> the state machine is started
  before parsing fails. With override fields of 32 bits the argument
  \<^verbatim>\<open>-4294967295\<close>, which is no positive integer, wraps around to 1 and is accepted. And
  behind \<^verbatim>\<open>-h\<close> the process ends with the usage text, not with the message of the field.
\<close>

theorem invalid_override_counterexample:
  "trace (main E32 [''extract'', ''--force-block-size'', ''abc''])
     = [New_runner, New_fsm, Fsm_start, Controller_start, On_logger_ready, Run,
        Task (Aborted (Fail ''Block size must be a positive integer.\<newline>'' []))]
   \<and> \<not> positive_integer ''-4294967295''
   \<and> (parse_cmd_args ''out'' [''extract'', ''--force-block-size'', ''-4294967295'', ''-f'', ''x'']
        :: abort + 32 extract_config_t)
     = Inr \<lparr>input_file = ''x'', log_file = [], output_file = ''out'',
            overrides = \<lparr>block_size = 1, extent_size = 0, mod_count = 0\<rparr>\<rparr>
   \<and> (parse_cmd_args ''out'' [''extract'', ''-h'', ''--force-block-size'', ''abc'']
        :: abort + 32 extract_config_t)
     = Inl (Exit (usage_text ''out'' ''extract'') (- 1))"
  by code_simp












end
